theory Spec2Isabelle
  imports Complex_Main "HOL-Library.Char_ord" "HOL-Library.List_Lexorder" "HOL-Library.Multiset"
begin

section \<open>Vectors and matrices of the RMSD calculator\<close>

text \<open>
  The program works on NumPy arrays of float64. Floats are modelled as real numbers;
  a point is a triple, an (N,3) coordinate array is a list of points and a (3,3) array
  is a triple of rows. Every place where NumPy raises is a branch of the model that
  returns an error; a division by zero, which NumPy answers with inf or nan and a
  warning, is the error \<open>NonFinite\<close>.
\<close>

type_synonym vec = "real \<times> real \<times> real"
type_synonym mat = "vec \<times> vec \<times> vec"

datatype error = ShapeError | IndexError | KeyError | ZeroDivision | NonFinite | NotAligned

fun vadd :: "vec \<Rightarrow> vec \<Rightarrow> vec" where
  "vadd (a, b, c) (x, y, z) = (a + x, b + y, c + z)"

fun vsub :: "vec \<Rightarrow> vec \<Rightarrow> vec" where
  "vsub (a, b, c) (x, y, z) = (a - x, b - y, c - z)"

fun vmul :: "vec \<Rightarrow> vec \<Rightarrow> vec" where
  "vmul (a, b, c) (x, y, z) = (a * x, b * y, c * z)"

fun vscale :: "real \<Rightarrow> vec \<Rightarrow> vec" where
  "vscale k (x, y, z) = (k * x, k * y, k * z)"

fun vneg :: "vec \<Rightarrow> vec" where
  "vneg (x, y, z) = (- x, - y, - z)"

fun vsum :: "vec \<Rightarrow> real" where
  "vsum (x, y, z) = x + y + z"

definition vdot :: "vec \<Rightarrow> vec \<Rightarrow> real" where
  "vdot u v = vsum (vmul u v)"

definition vzero :: vec where
  "vzero = (0, 0, 0)"

fun madd :: "mat \<Rightarrow> mat \<Rightarrow> mat" where
  "madd (a, b, c) (x, y, z) = (vadd a x, vadd b y, vadd c z)"

fun msub :: "mat \<Rightarrow> mat \<Rightarrow> mat" where
  "msub (a, b, c) (x, y, z) = (vsub a x, vsub b y, vsub c z)"

fun mscale :: "real \<Rightarrow> mat \<Rightarrow> mat" where
  "mscale k (a, b, c) = (vscale k a, vscale k b, vscale k c)"

definition mzero :: mat where
  "mzero = (vzero, vzero, vzero)"

definition eye :: mat where
  "eye = ((1, 0, 0), (0, 1, 0), (0, 0, 1))"

fun transpose_m :: "mat \<Rightarrow> mat" where
  "transpose_m ((a, b, c), (d, e, f), (g, h, i)) = ((a, d, g), (b, e, h), (c, f, i))"

fun outer :: "vec \<Rightarrow> vec \<Rightarrow> mat" where
  "outer (a, b, c) v = (vscale a v, vscale b v, vscale c v)"

text \<open>\<open>np.dot(x, M)\<close> for a point \<open>x\<close> and a (3,3) array \<open>M\<close>: the row vector times the matrix.\<close>

fun vec_dot_mat :: "vec \<Rightarrow> mat \<Rightarrow> vec" where
  "vec_dot_mat (x, y, z) (a, b, c) = vadd (vscale x a) (vadd (vscale y b) (vscale z c))"

text \<open>\<open>np.dot(A, B)\<close> for two (3,3) arrays.\<close>

fun mat_dot :: "mat \<Rightarrow> mat \<Rightarrow> mat" where
  "mat_dot (a, b, c) B = (vec_dot_mat a B, vec_dot_mat b B, vec_dot_mat c B)"

text \<open>\<open>np.dot(M, x)\<close>: the matrix times the column vector.\<close>

fun mat_dot_vec :: "mat \<Rightarrow> vec \<Rightarrow> vec" where
  "mat_dot_vec (a, b, c) x = (vdot a x, vdot b x, vdot c x)"

text \<open>\<open>np.dot(X, M)\<close> for an (N,3) array \<open>X\<close>: every row times the matrix.\<close>

definition rows_dot_mat :: "vec list \<Rightarrow> mat \<Rightarrow> vec list" where
  "rows_dot_mat X M = map (\<lambda>x. vec_dot_mat x M) X"

text \<open>\<open>np.linalg.det\<close> of a (3,3) array.\<close>

fun det :: "mat \<Rightarrow> real" where
  "det ((a, b, c), (d, e, f), (g, h, i)) =
     a * (e * i - f * h) - b * (d * i - f * g) + c * (d * h - e * g)"

text \<open>\<open>V[:, -1] = -V[:, -1]\<close>: the last column negated.\<close>

fun neg_last_col :: "mat \<Rightarrow> mat" where
  "neg_last_col ((a, b, c), (d, e, f), (g, h, i)) = ((a, b, - c), (d, e, - f), (g, h, - i))"

text \<open>\<open>S[-1] = -S[-1]\<close>: the last singular value negated.\<close>

fun neg_last :: "vec \<Rightarrow> vec" where
  "neg_last (a, b, c) = (a, b, - c)"

fun diag :: "vec \<Rightarrow> mat" where
  "diag (a, b, c) = ((a, 0, 0), (0, b, 0), (0, 0, c))"

definition msum :: "mat list \<Rightarrow> mat" where
  "msum Ms = foldr madd Ms mzero"

definition vecsum :: "vec list \<Rightarrow> vec" where
  "vecsum vs = foldr vadd vs vzero"

text \<open>
  \<open>np.dot(np.transpose(P), Q)\<close> for two (N,3) arrays: entry (i,k) is the sum over the
  rows j of \<open>P[j,i] * Q[j,k]\<close>. NumPy raises when the numbers of rows differ.
\<close>

definition dot_transpose :: "vec list \<Rightarrow> vec list \<Rightarrow> error + mat" where
  "dot_transpose P Q =
     (if length P \<noteq> length Q then Inl ShapeError
      else Inr (msum (map2 outer P Q)))"

section \<open>The Kabsch rotation\<close>

text \<open>
  \<open>np.linalg.svd\<close> is a library routine; the model takes it as a parameter \<open>svd\<close>
  that returns the triple (V, S, W) of the call \<open>V, S, W = np.linalg.svd(C)\<close>. What the
  library promises of the factors is the predicate \<open>is_svd\<close>: both factors are
  orthogonal, the singular values are non-negative and in descending order, and
  \<open>C = V diag(S) W\<close>.
\<close>

type_synonym svd_fn = "mat \<Rightarrow> mat \<times> vec \<times> mat"

definition orthogonal :: "mat \<Rightarrow> bool" where
  "orthogonal A \<longleftrightarrow> mat_dot A (transpose_m A) = eye \<and> mat_dot (transpose_m A) A = eye"

fun descending :: "vec \<Rightarrow> bool" where
  "descending (a, b, c) \<longleftrightarrow> a \<ge> b \<and> b \<ge> c \<and> c \<ge> 0"

fun is_svd :: "mat \<Rightarrow> mat \<times> vec \<times> mat \<Rightarrow> bool" where
  "is_svd C (V, S, W) \<longleftrightarrow>
     orthogonal V \<and> orthogonal W \<and> descending S \<and> mat_dot (mat_dot V (diag S)) W = C"

text \<open>
  The part shared by \<open>kabsch\<close>, \<open>kabsch_fit\<close> and \<open>kabsch_weighted\<close>: the sign test
  \<open>d = det(V) * det(W) < 0\<close>, the correction of \<open>S\<close> and \<open>V\<close>, and \<open>U = np.dot(V, W)\<close>.
  It returns the rotation and the corrected singular values.
\<close>

fun svd_rotation :: "mat \<times> vec \<times> mat \<Rightarrow> mat \<times> vec" where
  "svd_rotation (V, S, W) =
     (let d = (det V * det W < 0);
          S' = (if d then neg_last S else S);
          V' = (if d then neg_last_col V else V)
      in (mat_dot V' W, S'))"

definition kabsch :: "svd_fn \<Rightarrow> vec list \<Rightarrow> vec list \<Rightarrow> error + mat" where
  "kabsch svd P Q =
     (case dot_transpose P Q of
        Inl e \<Rightarrow> Inl e
      | Inr C \<Rightarrow> Inr (fst (svd_rotation (svd C))))"

section \<open>Plain RMSD and centroid\<close>

text \<open>
  NumPy broadcasting of a binary operation on two (N,3) and (M,3) arrays: rows are paired
  when \<open>N = M\<close>; a single row is repeated against the other array; any other pair of
  shapes raises.
\<close>

definition broadcast :: "(vec \<Rightarrow> vec \<Rightarrow> vec) \<Rightarrow> vec list \<Rightarrow> vec list \<Rightarrow> error + vec list" where
  "broadcast f A B =
     (if length A = length B then Inr (map2 f A B)
      else if length A = 1 then Inr (map (f (hd A)) B)
      else if length B = 1 then Inr (map (\<lambda>a. f a (hd B)) A)
      else Inl ShapeError)"

text \<open>\<open>X.sum()\<close> over every entry of an (N,3) array.\<close>

definition total :: "vec list \<Rightarrow> real" where
  "total X = sum_list (map vsum X)"

text \<open>
  \<open>rmsd(V, W)\<close>: \<open>diff = V - W\<close>, \<open>N = len(V)\<close>, \<open>sqrt((diff * diff).sum() / N)\<close>.
  With \<open>N = 0\<close> the quotient is \<open>0.0 / 0\<close>, a nan.
\<close>

definition rmsd :: "vec list \<Rightarrow> vec list \<Rightarrow> error + real" where
  "rmsd V W =
     (case broadcast vsub V W of
        Inl e \<Rightarrow> Inl e
      | Inr diff \<Rightarrow>
          (if length V = 0 then Inl NonFinite
           else Inr (sqrt (total (map (\<lambda>d. vmul d d) diff) / real (length V)))))"

text \<open>\<open>centroid(X) = X.mean(axis=0)\<close>; the mean of no rows is nan.\<close>

definition centroid :: "vec list \<Rightarrow> error + vec" where
  "centroid X =
     (if length X = 0 then Inl NonFinite
      else Inr (vscale (1 / real (length X)) (vecsum X)))"

text \<open>
  \<open>X - centroid(X)\<close>: the centroid is subtracted from every row. An array of no rows
  stays as it is: there is no row to subtract the nan centroid from.
\<close>

definition center :: "vec list \<Rightarrow> vec list" where
  "center X = (case centroid X of Inl e \<Rightarrow> X | Inr c \<Rightarrow> map (\<lambda>x. vsub x c) X)"


section \<open>Weighted Kabsch\<close>

text \<open>
  The sums that \<open>kabsch_weighted\<close> forms before the decomposition. \<open>W\<close> is the optional
  weight vector; \<open>np.array([W, W, W]).T\<close> repeats each weight over the three columns.
  The triple loop reads \<open>Q[j]\<close> and \<open>W[j]\<close> for every row \<open>j\<close> of \<open>P\<close>, which raises an
  IndexError when one of them is shorter; the products \<open>P * W\<close> and \<open>Q * W\<close> broadcast.
  When the weights sum to zero, \<open>iw = 3.0 / W.sum()\<close> is inf and the covariance holds
  only inf and nan.
\<close>

record weighted_sums =
  ws_C :: mat
  ws_CMP :: vec
  ws_CMQ :: vec
  ws_PSQ :: real
  ws_QSQ :: real
  ws_iw :: real

definition weight_vector :: "vec list \<Rightarrow> real list option \<Rightarrow> real list" where
  "weight_vector P W =
     (case W of None \<Rightarrow> replicate (length P) (1 / real (length P)) | Some w \<Rightarrow> w)"

definition weights3 :: "vec list \<Rightarrow> real list option \<Rightarrow> vec list" where
  "weights3 P W = map (\<lambda>x. (x, x, x)) (weight_vector P W)"

definition weighted_covariance :: "vec list \<Rightarrow> vec list \<Rightarrow> vec list \<Rightarrow> mat" where
  "weighted_covariance P Q W3 =
     msum (map (\<lambda>(p, q, w). mscale (fst w) (outer p q)) (zip P (zip Q W3)))"

definition weighted_sums :: "vec list \<Rightarrow> vec list \<Rightarrow> real list option \<Rightarrow> error + weighted_sums" where
  "weighted_sums P Q W =
     (let W3 = weights3 P W in
      if length Q < length P \<or> length W3 < length P then Inl IndexError
      else
        (case (broadcast vmul P W3, broadcast vmul Q W3) of
           (Inr PW, Inr QW) \<Rightarrow>
             (case (broadcast vmul (map (\<lambda>p. vmul p p) P) W3,
                    broadcast vmul (map (\<lambda>q. vmul q q) Q) W3) of
                (Inr PPW, Inr QQW) \<Rightarrow>
                  (if total W3 = 0 then Inl NonFinite
                   else
                     (let iw = 3 / total W3;
                          C = weighted_covariance P Q W3;
                          CMP = vecsum PW;
                          CMQ = vecsum QW;
                          PSQ = total PPW - vsum (vmul CMP CMP) * iw;
                          QSQ = total QQW - vsum (vmul CMQ CMQ) * iw
                      in Inr \<lparr> ws_C = mscale iw (msub C (mscale iw (outer CMP CMQ))),
                               ws_CMP = CMP, ws_CMQ = CMQ, ws_PSQ = PSQ, ws_QSQ = QSQ,
                               ws_iw = iw \<rparr>))
              | _ \<Rightarrow> Inl ShapeError)
         | _ \<Rightarrow> Inl ShapeError))"

text \<open>The mean squared deviation before it is clamped.\<close>

definition weighted_msd :: "weighted_sums \<Rightarrow> vec \<Rightarrow> real" where
  "weighted_msd s S' = (ws_PSQ s + ws_QSQ s) * ws_iw s - 2 * vsum S'"

definition kabsch_weighted ::
    "svd_fn \<Rightarrow> vec list \<Rightarrow> vec list \<Rightarrow> real list option \<Rightarrow> error + (mat \<times> vec \<times> real)" where
  "kabsch_weighted svd P Q W =
     (case weighted_sums P Q W of
        Inl e \<Rightarrow> Inl e
      | Inr s \<Rightarrow>
          (let (U, S') = svd_rotation (svd (ws_C s));
               msd = weighted_msd s S';
               msd = (if msd < 0 then 0 else msd);
               rmsd = sqrt msd;
               V = vsub (ws_CMP s) (mat_dot_vec U (ws_CMQ s));
               V = vscale (ws_iw s) V
           in Inr (U, V, rmsd)))"

text \<open>\<open>np.dot(P, R.T) + T\<close>: the rows of \<open>P\<close> rotated by the transpose, then translated.\<close>

definition apply_fit :: "mat \<Rightarrow> vec \<Rightarrow> vec list \<Rightarrow> vec list" where
  "apply_fit R T P = map (\<lambda>x. vadd x T) (rows_dot_mat P (transpose_m R))"

definition kabsch_weighted_fit ::
    "svd_fn \<Rightarrow> vec list \<Rightarrow> vec list \<Rightarrow> real list option \<Rightarrow> error + (vec list \<times> real)" where
  "kabsch_weighted_fit svd P Q W =
     (case kabsch_weighted svd Q P W of
        Inl e \<Rightarrow> Inl e
      | Inr (R, T, RMSD) \<Rightarrow> Inr (apply_fit R T P, RMSD))"



section \<open>Rotation between two vectors\<close>

fun cross :: "vec \<Rightarrow> vec \<Rightarrow> vec" where
  "cross (a, b, c) (x, y, z) = (b * z - c * y, c * x - a * z, a * y - b * x)"

definition norm3 :: "vec \<Rightarrow> real" where
  "norm3 v = sqrt (vdot v v)"

fun skew :: "vec \<Rightarrow> mat" where
  "skew (x, y, z) = ((0, - z, y), (z, 0, - x), (- y, x, 0))"

text \<open>The divisor \<open>s * s\<close> of the general branch of \<open>rotation_matrix_vectors\<close>.\<close>

definition rodrigues_divisor :: "vec \<Rightarrow> vec \<Rightarrow> real" where
  "rodrigues_divisor v1 v2 = (let s = norm3 (cross v1 v2) in s * s)"

text \<open>
  \<open>rotation_matrix_vectors(v1, v2)\<close>. The two guards compare elementwise; the last
  branch divides by \<open>s * s\<close>, and with a zero divisor NumPy fills the result with nan
  (\<open>NonFinite\<close>).
\<close>

definition rotation_matrix_vectors :: "vec \<Rightarrow> vec \<Rightarrow> error + mat" where
  "rotation_matrix_vectors v1 v2 =
     (if v1 = v2 then Inr eye
      else if v1 = vneg v2 then Inr ((- 1, 0, 0), (0, 1, 0), (0, 0, - 1))
      else
        (let v = cross v1 v2;
             c = vdot v1 v2;
             vx = skew v
         in if rodrigues_divisor v1 v2 = 0 then Inl NonFinite
            else Inr (madd (madd eye vx)
                           (mscale ((1 - c) / rodrigues_divisor v1 v2) (mat_dot vx vx)))))"


section \<open>Inertia tensor and principal axis\<close>

definition ELEMENTS_WEIGHTS :: "(string \<times> real) list" where
  "ELEMENTS_WEIGHTS =
    [
     (''h'', 1.008), (''he'', 4.003), (''li'', 6.941), (''be'', 9.012), (''b'', 10.811),
     (''c'', 12.011), (''n'', 14.007), (''o'', 15.999), (''f'', 18.998), (''ne'', 20.180),
     (''na'', 22.990), (''mg'', 24.305), (''al'', 26.982), (''si'', 28.086),
     (''p'', 30.974), (''s'', 32.066), (''cl'', 35.453), (''ar'', 39.948), (''k'', 39.098),
     (''ca'', 40.078), (''sc'', 44.956), (''ti'', 47.867), (''v'', 50.942),
     (''cr'', 51.996), (''mn'', 54.938), (''fe'', 55.845), (''co'', 58.933),
     (''ni'', 58.693), (''cu'', 63.546), (''zn'', 65.38), (''ga'', 69.723),
     (''ge'', 72.631), (''as'', 74.922), (''se'', 78.971), (''br'', 79.904),
     (''kr'', 84.798), (''rb'', 84.468), (''sr'', 87.62), (''y'', 88.906),
     (''zr'', 91.224), (''nb'', 92.906), (''mo'', 95.95), (''tc'', 98.907),
     (''ru'', 101.07), (''rh'', 102.906), (''pd'', 106.42), (''ag'', 107.868),
     (''cd'', 112.414), (''in'', 114.818), (''sn'', 118.711), (''sb'', 121.760),
     (''te'', 126.7), (''i'', 126.904), (''xe'', 131.294), (''cs'', 132.905),
     (''ba'', 137.328), (''la'', 138.905), (''ce'', 140.116), (''pr'', 140.908),
     (''nd'', 144.243), (''pm'', 144.913), (''sm'', 150.36), (''eu'', 151.964),
     (''gd'', 157.25), (''tb'', 158.925), (''dy'', 162.500), (''ho'', 164.930),
     (''er'', 167.259), (''tm'', 168.934), (''yb'', 173.055), (''lu'', 174.967),
     (''hf'', 178.49), (''ta'', 180.948), (''w'', 183.84), (''re'', 186.207),
     (''os'', 190.23), (''ir'', 192.217), (''pt'', 195.085), (''au'', 196.967),
     (''hg'', 200.592), (''tl'', 204.383), (''pb'', 207.2), (''bi'', 208.980),
     (''po'', 208.982), (''at'', 209.987), (''rn'', 222.081), (''fr'', 223.020),
     (''ra'', 226.025), (''ac'', 227.028), (''th'', 232.038), (''pa'', 231.036),
     (''u'', 238.029), (''np'', 237), (''pu'', 244), (''am'', 243), (''cm'', 247),
     (''bk'', 247), (''ct'', 251), (''es'', 252), (''fm'', 257), (''md'', 258),
     (''no'', 259), (''lr'', 262), (''rf'', 261), (''db'', 262), (''sg'', 266),
     (''bh'', 264), (''hs'', 269), (''mt'', 268), (''ds'', 271), (''rg'', 272),
     (''cn'', 285), (''nh'', 284), (''fl'', 289), (''mc'', 288), (''lv'', 292),
     (''ts'', 294), (''og'', 294)
    ]"

text \<open>\<open>str.lower()\<close> on the ASCII letters.\<close>

definition lower_char :: "char \<Rightarrow> char" where
  "lower_char ch =
     (if CHR ''A'' \<le> ch \<and> ch \<le> CHR ''Z'' then char_of (of_char ch + (32 :: nat)) else ch)"

definition lower :: "string \<Rightarrow> string" where
  "lower s = map lower_char s"

text \<open>\<open>ELEMENTS_WEIGHTS[x.lower()]\<close>: a KeyError for a label that is not in the table.\<close>

definition element_weight :: "string \<Rightarrow> error + real" where
  "element_weight x =
     (case map_of ELEMENTS_WEIGHTS (lower x) of None \<Rightarrow> Inl KeyError | Some m \<Rightarrow> Inr m)"

definition ebind :: "error + 'a \<Rightarrow> ('a \<Rightarrow> error + 'b) \<Rightarrow> error + 'b" where
  "ebind m f = (case m of Inl e \<Rightarrow> Inl e | Inr x \<Rightarrow> f x)"

text \<open>A list comprehension or a loop whose body may raise: the first error ends it.\<close>

fun emap :: "('a \<Rightarrow> error + 'b) \<Rightarrow> 'a list \<Rightarrow> error + 'b list" where
  "emap f [] = Inr []"
| "emap f (x # xs) = ebind (f x) (\<lambda>y. ebind (emap f xs) (\<lambda>ys. Inr (y # ys)))"

fun efold :: "('a \<Rightarrow> 's \<Rightarrow> error + 's) \<Rightarrow> 'a list \<Rightarrow> 's \<Rightarrow> error + 's" where
  "efold f [] s = Inr s"
| "efold f (x # xs) s = ebind (f x s) (efold f xs)"

text \<open>
  \<open>get_cm(atoms, V)\<close>: \<open>np.average(V, axis=0, weights=[...])\<close>. The weights are looked up
  first; \<open>np.average\<close> raises when there is not one weight for each row, and when the
  weights sum to zero.
\<close>

definition get_cm :: "string list \<Rightarrow> vec list \<Rightarrow> error + vec" where
  "get_cm atoms V =
     ebind (emap element_weight atoms) (\<lambda>ms.
       if length ms \<noteq> length V then Inl ShapeError
       else if sum_list ms = 0 then Inl ZeroDivision
       else Inr (vscale (1 / sum_list ms) (vecsum (map2 vscale ms V))))"

text \<open>One pass of the loop of \<open>get_inertia_tensor\<close>: the six sums, in the order Ixx, Iyy, Izz, Ixy, Ixz, Iyz.\<close>

fun inertia_step :: "string \<times> vec \<Rightarrow> vec \<times> vec \<Rightarrow> error + (vec \<times> vec)" where
  "inertia_step (sp, (x, y, z)) ((Ixx, Iyy, Izz), (Ixy, Ixz, Iyz)) =
     ebind (element_weight sp) (\<lambda>amass.
       Inr ((Ixx + amass * (y * y + z * z),
             Iyy + amass * (x * x + z * z),
             Izz + amass * (x * x + y * y)),
            (Ixy + - amass * x * y,
             Ixz + - amass * x * z,
             Iyz + - amass * y * z)))"

definition get_inertia_tensor :: "string list \<Rightarrow> vec list \<Rightarrow> error + mat" where
  "get_inertia_tensor atoms V =
     ebind (get_cm atoms V) (\<lambda>cm.
       let CV = map (\<lambda>x. vsub x cm) V in
       ebind (efold inertia_step (zip atoms CV) (vzero, vzero))
         (\<lambda>((Ixx, Iyy, Izz), (Ixy, Ixz, Iyz)).
            Inr ((Ixx, Ixy, Ixz), (Ixy, Iyy, Iyz), (Ixz, Iyz, Izz))))"

text \<open>
  \<open>np.linalg.eig\<close> is a library routine, the parameter \<open>eig\<close>: it returns the eigenvalues
  and an array whose column \<open>k\<close> is a normalised eigenvector of the eigenvalue \<open>k\<close>.
\<close>

type_synonym eig_fn = "mat \<Rightarrow> vec \<times> mat"

fun vget :: "vec \<Rightarrow> nat \<Rightarrow> real" where
  "vget (x, y, z) k = (if k = 0 then x else if k = 1 then y else z)"

fun mrow :: "mat \<Rightarrow> nat \<Rightarrow> vec" where
  "mrow (a, b, c) k = (if k = 0 then a else if k = 1 then b else c)"

definition mcol :: "mat \<Rightarrow> nat \<Rightarrow> vec" where
  "mcol A k = mrow (transpose_m A) k"

text \<open>\<open>np.argmax\<close>: the first index of the largest entry.\<close>

fun argmax :: "vec \<Rightarrow> nat" where
  "argmax (x, y, z) = (if x \<ge> y \<and> x \<ge> z then 0 else if y \<ge> z then 1 else 2)"

definition is_eigenvector :: "mat \<Rightarrow> real \<Rightarrow> vec \<Rightarrow> bool" where
  "is_eigenvector A l v \<longleftrightarrow> v \<noteq> vzero \<and> mat_dot_vec A v = vscale l v"

definition is_eig :: "mat \<Rightarrow> vec \<times> mat \<Rightarrow> bool" where
  "is_eig A r \<longleftrightarrow>
     (case r of (w, E) \<Rightarrow>
        is_eigenvector A (vget w 0) (mcol E 0) \<and> vdot (mcol E 0) (mcol E 0) = 1
      \<and> is_eigenvector A (vget w 1) (mcol E 1) \<and> vdot (mcol E 1) (mcol E 1) = 1
      \<and> is_eigenvector A (vget w 2) (mcol E 2) \<and> vdot (mcol E 2) (mcol E 2) = 1
      \<and> det E \<noteq> 0)"

text \<open>\<open>get_principal_axis\<close>: \<open>eigvec[np.argmax(eigval)]\<close> indexes the first axis, a row.\<close>

definition get_principal_axis :: "eig_fn \<Rightarrow> string list \<Rightarrow> vec list \<Rightarrow> error + vec" where
  "get_principal_axis eig atoms V =
     ebind (get_inertia_tensor atoms V) (\<lambda>I.
       let (eigval, eigvec) = eig I in Inr (mrow eigvec (argmax eigval)))"

section \<open>Index arrays\<close>




text \<open>
  \<open>xs[view]\<close> with an integer array that may hold negative entries (the reorder
  functions fill their result with -1 before they assign): a negative index counts
  from the end.
\<close>

definition take_rows :: "'a list \<Rightarrow> int list \<Rightarrow> error + 'a list" where
  "take_rows xs view =
     (let n = int (length xs) in
      if list_all (\<lambda>i. - n \<le> i \<and> i < n) view
      then Inr (map (\<lambda>i. xs ! nat (if i < 0 then i + n else i)) view)
      else Inl IndexError)"


section \<open>Correspondence solvers\<close>












section \<open>Permutations by Heap's algorithm\<close>










section \<open>Reflection search\<close>

definition AXIS_SWAPS :: "(nat \<times> nat \<times> nat) list" where
  "AXIS_SWAPS = [(0, 1, 2), (0, 2, 1), (1, 0, 2), (1, 2, 0), (2, 1, 0), (2, 0, 1)]"

definition AXIS_REFLECTIONS :: "(int \<times> int \<times> int) list" where
  "AXIS_REFLECTIONS =
     [(1, 1, 1), (- 1, 1, 1), (1, - 1, 1), (1, 1, - 1),
      (- 1, - 1, 1), (- 1, 1, - 1), (1, - 1, - 1), (- 1, - 1, - 1)]"

definition swap_mask :: "int list" where
  "swap_mask = [1, - 1, - 1, 1, - 1, 1]"

definition reflection_mask :: "int list" where
  "reflection_mask = [1, - 1, - 1, - 1, 1, 1, 1, - 1]"

text \<open>\<open>x[swap]\<close> for one row: column \<open>k\<close> of the result is column \<open>swap[k]\<close>.\<close>

fun swap_columns :: "nat \<times> nat \<times> nat \<Rightarrow> vec \<Rightarrow> vec" where
  "swap_columns (a, b, c) x = (vget x a, vget x b, vget x c)"

fun reflection_diag :: "int \<times> int \<times> int \<Rightarrow> mat" where
  "reflection_diag (a, b, c) = diag (of_int a, of_int b, of_int c)"

text \<open>
  \<open>tmp_coord[:, swap]\<close>, \<open>np.dot(tmp_coord, np.diag(reflection))\<close> and the subtraction
  of the centroid.
\<close>

definition reflect_coord :: "nat \<times> nat \<times> nat \<Rightarrow> int \<times> int \<times> int \<Rightarrow> vec list \<Rightarrow> vec list" where
  "reflect_coord swap reflection q_coord =
     center (rows_dot_mat (map (swap_columns swap) q_coord) (reflection_diag reflection))"

type_synonym reorder_fn = "string list \<Rightarrow> string list \<Rightarrow> vec list \<Rightarrow> vec list \<Rightarrow> error + int list"
type_synonym rotation_fn = "vec list \<Rightarrow> vec list \<Rightarrow> error + real"

text \<open>The variables of the search; \<open>min_rmsd = None\<close> is \<open>np.inf\<close>.\<close>

record search =
  min_rmsd :: "real option"
  min_swap :: "(nat \<times> nat \<times> nat) option"
  min_reflection :: "(int \<times> int \<times> int) option"
  min_review :: "int list option"
  tmp_review :: "int list option"

definition search_init :: search where
  "search_init = \<lparr> min_rmsd = None, min_swap = None, min_reflection = None,
                   min_review = None, tmp_review = None \<rparr>"

text \<open>
  The body of the two loops of \<open>check_reflections\<close> after the test for enantiomers:
  the candidate is built, reordered, scored and compared with the minimum so far.
\<close>

definition score_candidate ::
    "string list \<Rightarrow> string list \<Rightarrow> vec list \<Rightarrow> vec list \<Rightarrow> reorder_fn option \<Rightarrow>
     rotation_fn option \<Rightarrow> (nat \<times> nat \<times> nat) \<Rightarrow> (int \<times> int \<times> int) \<Rightarrow> search \<Rightarrow> error + search" where
  "score_candidate p_atoms q_atoms p_coord q_coord reorder_method rotation_method
       swap reflection st =
     (let tmp_coord = reflect_coord swap reflection q_coord in
      ebind (case reorder_method of
               None \<Rightarrow> Inr (tmp_review st, tmp_coord)
             | Some reorder \<Rightarrow>
                 ebind (reorder p_atoms q_atoms p_coord tmp_coord) (\<lambda>review.
                 ebind (take_rows tmp_coord review) (\<lambda>tmp_coord'.
                 ebind (take_rows q_atoms review) (\<lambda>tmp_atoms'.
                   Inr (Some review, tmp_coord')))))
        (\<lambda>(review, tmp_coord).
      ebind (case rotation_method of
               None \<Rightarrow> rmsd p_coord tmp_coord
             | Some rotation \<Rightarrow> rotation p_coord tmp_coord)
        (\<lambda>this_rmsd.
           if (case min_rmsd st of None \<Rightarrow> True | Some m \<Rightarrow> this_rmsd < m)
           then Inr \<lparr> min_rmsd = Some this_rmsd, min_swap = Some swap,
                      min_reflection = Some reflection, min_review = review,
                      tmp_review = review \<rparr>
           else Inr (st \<lparr> tmp_review := review \<rparr>))))"

text \<open>
  One pass of the loops for a swap with its mask \<open>i\<close> and a reflection with its mask
  \<open>j\<close>: \<open>if keep_stereo and i * j == -1: continue\<close>.
\<close>

fun reflection_step ::
    "string list \<Rightarrow> string list \<Rightarrow> vec list \<Rightarrow> vec list \<Rightarrow> reorder_fn option \<Rightarrow>
     rotation_fn option \<Rightarrow> bool \<Rightarrow>
     ((nat \<times> nat \<times> nat) \<times> int) \<times> ((int \<times> int \<times> int) \<times> int) \<Rightarrow> search \<Rightarrow> error + search" where
  "reflection_step p_atoms q_atoms p_coord q_coord reorder_method rotation_method keep_stereo
       ((swap, i), (reflection, j)) st =
     (if keep_stereo \<and> i * j = - 1 then Inr st
      else score_candidate p_atoms q_atoms p_coord q_coord reorder_method rotation_method
             swap reflection st)"

text \<open>The pairs in the order of the nested loops: every swap with every reflection.\<close>

definition reflection_pairs ::
    "(((nat \<times> nat \<times> nat) \<times> int) \<times> ((int \<times> int \<times> int) \<times> int)) list" where
  "reflection_pairs =
     List.product (zip AXIS_SWAPS swap_mask) (zip AXIS_REFLECTIONS reflection_mask)"

text \<open>
  \<open>(p_atoms == q_atoms[min_review]).all()\<close>: the comparison broadcasts like any
  elementwise operation; indexing with \<open>None\<close> only adds an axis.
\<close>

definition all_equal :: "string list \<Rightarrow> string list \<Rightarrow> error + bool" where
  "all_equal xs ys =
     (if length xs = length ys then Inr (list_all2 (=) xs ys)
      else if length xs = 1 then Inr (list_all (\<lambda>y. hd xs = y) ys)
      else if length ys = 1 then Inr (list_all (\<lambda>x. x = hd ys) xs)
      else Inl ShapeError)"

definition check_reflections ::
    "string list \<Rightarrow> string list \<Rightarrow> vec list \<Rightarrow> vec list \<Rightarrow> reorder_fn option \<Rightarrow>
     rotation_fn option \<Rightarrow> bool \<Rightarrow> error + search" where
  "check_reflections p_atoms q_atoms p_coord q_coord reorder_method rotation_method keep_stereo =
     ebind (efold (reflection_step p_atoms q_atoms p_coord q_coord reorder_method
                     rotation_method keep_stereo) reflection_pairs search_init) (\<lambda>st.
     ebind (case min_review st of
              None \<Rightarrow> Inr q_atoms
            | Some view \<Rightarrow> take_rows q_atoms view) (\<lambda>q_view.
     ebind (all_equal p_atoms q_view) (\<lambda>aligned.
       if \<not> aligned then Inl NotAligned else Inr st)))"

text \<open>
  The linear map that a swap and a reflection apply to every point, as the matrix whose
  rows are the images of the unit vectors, and the candidates that the search scores:
  the pairs that the test \<open>keep_stereo and i * j == -1\<close> does not skip.
\<close>

definition transform_matrix :: "nat \<times> nat \<times> nat \<Rightarrow> int \<times> int \<times> int \<Rightarrow> mat" where
  "transform_matrix swap reflection =
     (let f = (\<lambda>x. vec_dot_mat (swap_columns swap x) (reflection_diag reflection))
      in (f (1, 0, 0), f (0, 1, 0), f (0, 0, 1)))"

definition evaluated :: "bool \<Rightarrow> ((nat \<times> nat \<times> nat) \<times> (int \<times> int \<times> int)) list" where
  "evaluated keep_stereo =
     map (\<lambda>((swap, i), (reflection, j)). (swap, reflection))
       (filter (\<lambda>((swap, i), (reflection, j)). \<not> (keep_stereo \<and> i * j = - 1)) reflection_pairs)"

text \<open>
  The parities that the two masks stand for: the sign of an axis permutation, by its
  inversions, and the sign of a reflection, the product of its entries.
\<close>

fun swap_sign :: "nat \<times> nat \<times> nat \<Rightarrow> int" where
  "swap_sign (a, b, c) =
     (if a < b then 1 else - 1) * (if a < c then 1 else - 1) * (if b < c then 1 else - 1)"

fun reflection_sign :: "int \<times> int \<times> int \<Rightarrow> int" where
  "reflection_sign (x, y, z) = x * y * z"

definition proper :: "(nat \<times> nat \<times> nat) \<times> (int \<times> int \<times> int) \<Rightarrow> bool" where
  "proper cand \<longleftrightarrow>
     swap_sign (fst cand) * reflection_sign (snd cand) = 1
     \<and> det (transform_matrix (fst cand) (snd cand)) = 1"

section \<open>Contracts of the library routines and of the correspondence solvers\<close>






section \<open>Notions for the statements about the fit\<close>

text \<open>The trace of a matrix and the entrywise inner product of two matrices.\<close>

fun tr :: "mat \<Rightarrow> real" where
  "tr ((a, b, c), (d, e, f), (g, h, i)) = a + e + i"

fun frob :: "mat \<Rightarrow> mat \<Rightarrow> real" where
  "frob (a, b, c) (x, y, z) = vdot a x + vdot b y + vdot c z"

text \<open>
  The weighted mean squared deviation between the rows of two point sets, and a proper
  rotation: an orthogonal matrix of determinant +1.
\<close>

definition wmsd :: "real list \<Rightarrow> vec list \<Rightarrow> vec list \<Rightarrow> real" where
  "wmsd w X Y =
     sum_list (map (\<lambda>(w, x, y). w * vdot (vsub x y) (vsub x y)) (zip w (zip X Y))) / sum_list w"

definition proper_rotation :: "mat \<Rightarrow> bool" where
  "proper_rotation R \<longleftrightarrow> orthogonal R \<and> det R = 1"

text \<open>The adjugate of a matrix: the transposed matrix of its cofactors.\<close>

fun adjugate :: "mat \<Rightarrow> mat" where
  "adjugate ((a, b, c), (d, e, f), (g, h, i)) =
     ((e * i - f * h, c * h - b * i, b * f - c * e),
      (f * g - d * i, a * i - c * g, c * d - a * f),
      (d * h - e * g, b * g - a * h, a * e - b * d))"

section \<open>Determinants\<close>

lemma det_mat_dot: "det (mat_dot A B) = det A * det B"
proof -
  obtain a b c d e f g h i where A: "A = ((a, b, c), (d, e, f), (g, h, i))"
    by (metis prod_cases3)
  obtain a' b' c' d' e' f' g' h' i' where B: "B = ((a', b', c'), (d', e', f'), (g', h', i'))"
    by (metis prod_cases3)
  show ?thesis
    unfolding A B by (simp add: algebra_simps)
qed

lemma det_transpose_m: "det (transpose_m A) = det A"
proof -
  obtain a b c d e f g h i where A: "A = ((a, b, c), (d, e, f), (g, h, i))"
    by (metis prod_cases3)
  show ?thesis unfolding A by (simp add: algebra_simps)
qed

lemma det_eye: "det eye = 1"
  by (simp add: eye_def)

lemma det_neg_last_col: "det (neg_last_col A) = - det A"
proof -
  obtain a b c d e f g h i where A: "A = ((a, b, c), (d, e, f), (g, h, i))"
    by (metis prod_cases3)
  show ?thesis unfolding A by (simp add: algebra_simps)
qed

lemma orthogonal_det_sq: "orthogonal A \<Longrightarrow> det A * det A = 1"
proof -
  assume "orthogonal A"
  then have "det (mat_dot A (transpose_m A)) = det eye"
    by (simp add: orthogonal_def)
  then show ?thesis
    by (simp add: det_mat_dot det_transpose_m det_eye)
qed

lemma orthogonal_det: "orthogonal A \<Longrightarrow> det A = 1 \<or> det A = - 1"
proof -
  assume "orthogonal A"
  then have "det A * det A = 1" by (rule orthogonal_det_sq)
  then have "(det A - 1) * (det A + 1) = 0" by (simp add: algebra_simps)
  then show ?thesis by auto
qed

lemma svd_rotation_det:
  assumes "orthogonal V" and "orthogonal W"
  shows "det (fst (svd_rotation (V, S, W))) = 1"
proof -
  from assms have "det V = 1 \<or> det V = - 1" and "det W = 1 \<or> det W = - 1"
    by (simp_all add: orthogonal_det)
  then show ?thesis
    by (auto simp add: Let_def det_mat_dot det_neg_last_col)
qed



section \<open>Properties of the Kabsch rotation\<close>

text \<open>
  C3: for point sets \<open>P\<close>, \<open>Q\<close> of equal length, whenever the two factors returned by the
  decomposition are orthogonal, \<open>kabsch(P, Q)\<close> returns \<open>U = V W\<close>, with the last column of
  \<open>V\<close> negated when \<open>det(V) * det(W) < 0\<close>, and the determinant of \<open>U\<close> is +1: a proper
  rotation, never a reflection.
\<close>

theorem kabsch_proper_rotation:
  assumes "dot_transpose P Q = Inr C"
    and "svd C = (V, S, W)"
    and "orthogonal V" and "orthogonal W"
  shows "kabsch svd P Q = Inr (mat_dot (if det V * det W < 0 then neg_last_col V else V) W)
         \<and> det (mat_dot (if det V * det W < 0 then neg_last_col V else V) W) = 1"
proof -
  have "det (fst (svd_rotation (V, S, W))) = 1"
    using assms(3,4) by (rule svd_rotation_det)
  moreover have "fst (svd_rotation (V, S, W))
      = mat_dot (if det V * det W < 0 then neg_last_col V else V) W"
    by (simp add: Let_def)
  ultimately show ?thesis
    using assms(1,2) by (simp add: kabsch_def)
qed

lemma orthogonal_eye: "orthogonal eye"
  by (simp add: orthogonal_def eye_def)

lemma orthogonal_mirror: "orthogonal ((1, 0, 0), (0, 1, 0), (0, 0, - 1))"
  by (simp add: orthogonal_def eye_def)

theorem kabsch_proper_rotation_witness:
  "kabsch (\<lambda>C. (eye, (1, 1, 1), ((1, 0, 0), (0, 1, 0), (0, 0, - 1))))
      [(1, 0, 0), (0, 1, 0), (0, 0, 1)] [(1, 0, 0), (0, 1, 0), (0, 0, - 1)] = Inr eye
   \<and> det eye = 1"
proof -
  have C: "dot_transpose [(1, 0, 0), (0, 1, 0), (0, 0, 1)] [(1, 0, 0), (0, 1, 0), (0, 0, - 1)]
      = Inr ((1, 0, 0), (0, 1, 0), (0, 0, - 1))"
    by (simp add: dot_transpose_def msum_def mzero_def vzero_def)
  show ?thesis
    using kabsch_proper_rotation [where svd = "\<lambda>C. (eye, (1, 1, 1), ((1, 0, 0), (0, 1, 0), (0, 0, - 1)))",
        OF C _ orthogonal_eye orthogonal_mirror]
    by (simp add: eye_def)
qed

section \<open>Properties of the weighted Kabsch fit\<close>

text \<open>
  C9: whenever \<open>kabsch_weighted\<close> returns, the returned RMSD is the square root of the
  mean squared deviation \<open>(PSQ + QSQ) * iw - 2 * S.sum()\<close> after a negative value has
  been replaced by zero; the argument of the square root is never negative and the
  RMSD is a non-negative real.
\<close>

theorem kabsch_weighted_rmsd_clamped:
  assumes "kabsch_weighted svd P Q W = Inr (U, V, r)"
  shows "\<exists>s msd. weighted_sums P Q W = Inr s
           \<and> msd = weighted_msd s (snd (svd_rotation (svd (ws_C s))))
           \<and> r = sqrt (if msd < 0 then 0 else msd)
           \<and> 0 \<le> (if msd < 0 then 0 else msd)
           \<and> 0 \<le> r"
proof (cases "weighted_sums P Q W")
  case (Inl e)
  with assms show ?thesis by (simp add: kabsch_weighted_def)
next
  case (Inr s)
  with assms show ?thesis
    by (auto simp add: kabsch_weighted_def Let_def split: prod.splits)
qed

theorem kabsch_weighted_rmsd_clamped_witness:
  "kabsch_weighted (\<lambda>C. (eye, (1, 0, 0), eye)) [(0, 0, 0)] [(0, 0, 0)] None
     = Inr (eye, (0, 0, 0), 0)
   \<and> (\<exists>s msd. weighted_sums [(0, 0, 0)] [(0, 0, 0)] None = Inr s
           \<and> msd = weighted_msd s (snd (svd_rotation ((\<lambda>C. (eye, (1, 0, 0), eye)) (ws_C s))))
           \<and> (0::real) = sqrt (if msd < 0 then 0 else msd)
           \<and> 0 \<le> (if msd < 0 then 0 else msd)
           \<and> (0::real) \<le> 0)"
proof -
  have K: "kabsch_weighted (\<lambda>C. (eye, (1, 0, 0), eye)) [(0, 0, 0)] [(0, 0, 0)] None
     = Inr (eye, (0, 0, 0), 0)"
    by (simp add: kabsch_weighted_def weighted_sums_def weights3_def weight_vector_def broadcast_def total_def
        weighted_covariance_def msum_def vecsum_def mzero_def vzero_def weighted_msd_def
        eye_def vdot_def Let_def)
  show ?thesis
    using K kabsch_weighted_rmsd_clamped [OF K] by simp
qed

section \<open>Properties of the plain RMSD\<close>

text \<open>
  C7, as the spec states it, fails: a point set of one row is broadcast against a longer
  one, and \<open>rmsd\<close> returns a number although the lengths differ.
\<close>

theorem rmsd_length_mismatch_counterexample:
  "length [(0, 0, 0) :: vec] \<noteq> length [(1, 0, 0), (0, 1, 0) :: vec]
   \<and> rmsd [(0, 0, 0)] [(1, 0, 0), (0, 1, 0)] = Inr (sqrt 2)"
  by (simp add: rmsd_def broadcast_def total_def)

text \<open>
  C7, amended: for point sets of different lengths, \<open>rmsd(V, W)\<close> raises exactly when
  neither of them has a single row.
\<close>

theorem rmsd_length_mismatch:
  assumes "length V \<noteq> length W"
  shows "rmsd V W = Inl ShapeError \<longleftrightarrow> length V \<noteq> 1 \<and> length W \<noteq> 1"
  using assms by (auto simp add: rmsd_def broadcast_def)

theorem rmsd_length_mismatch_witness:
  "rmsd [(0, 0, 0), (1, 1, 1)] [(1, 0, 0), (0, 1, 0), (0, 0, 1)] = Inl ShapeError"
proof -
  have "length [(0, 0, 0), (1, 1, 1) :: vec] \<noteq> length [(1, 0, 0), (0, 1, 0), (0, 0, 1) :: vec]"
    by simp
  from rmsd_length_mismatch [OF this] show ?thesis by simp
qed

section \<open>Properties of the rotation between two vectors\<close>

lemma norm3_zero: "norm3 vzero = 0"
  by (simp add: norm3_def vdot_def vzero_def)

text \<open>
  C10: the guards of \<open>rotation_matrix_vectors\<close> compare elementwise only. For two
  vectors whose cross product is zero and that are neither equal nor negations of each
  other (for example \<open>v2 = 2 * v1\<close>), the general branch is reached with the divisor
  \<open>s * s = 0\<close>: the division is not guarded.
\<close>

theorem rotation_matrix_vectors_unguarded:
  assumes "cross v1 v2 = vzero" and "v1 \<noteq> v2" and "v1 \<noteq> vneg v2"
  shows "rodrigues_divisor v1 v2 = 0 \<and> rotation_matrix_vectors v1 v2 = Inl NonFinite"
  using assms by (simp add: rotation_matrix_vectors_def rodrigues_divisor_def norm3_zero Let_def)

theorem rotation_matrix_vectors_unguarded_witness:
  "rodrigues_divisor (1, 0, 0) (2, 0, 0) = 0
   \<and> rotation_matrix_vectors (1, 0, 0) (2, 0, 0) = Inl NonFinite"
proof -
  have "cross (1, 0, 0) (2, 0, 0) = vzero" "(1, 0, 0) \<noteq> ((2, 0, 0) :: vec)"
    "(1, 0, 0) \<noteq> vneg (2, 0, 0)"
    by (simp_all add: vzero_def)
  from rotation_matrix_vectors_unguarded [OF this] show ?thesis .
qed

section \<open>Properties of the reflection search\<close>


lemmas reflection_tables =
  reflection_pairs_def AXIS_SWAPS_def AXIS_REFLECTIONS_def swap_mask_def reflection_mask_def


lemma evaluated_True:
  "evaluated True =
    [((0, 1, 2), (1, 1, 1)), ((0, 1, 2), (- 1, - 1, 1)),
     ((0, 1, 2), (- 1, 1, - 1)), ((0, 1, 2), (1, - 1, - 1)),
     ((0, 2, 1), (- 1, 1, 1)), ((0, 2, 1), (1, - 1, 1)),
     ((0, 2, 1), (1, 1, - 1)), ((0, 2, 1), (- 1, - 1, - 1)),
     ((1, 0, 2), (- 1, 1, 1)), ((1, 0, 2), (1, - 1, 1)),
     ((1, 0, 2), (1, 1, - 1)), ((1, 0, 2), (- 1, - 1, - 1)),
     ((1, 2, 0), (1, 1, 1)), ((1, 2, 0), (- 1, - 1, 1)),
     ((1, 2, 0), (- 1, 1, - 1)), ((1, 2, 0), (1, - 1, - 1)),
     ((2, 1, 0), (- 1, 1, 1)), ((2, 1, 0), (1, - 1, 1)),
     ((2, 1, 0), (1, 1, - 1)), ((2, 1, 0), (- 1, - 1, - 1)),
     ((2, 0, 1), (1, 1, 1)), ((2, 0, 1), (- 1, - 1, 1)),
     ((2, 0, 1), (- 1, 1, - 1)), ((2, 0, 1), (1, - 1, - 1))]"
  by (simp add: evaluated_def reflection_tables)


lemma evaluated_True_length: "length (evaluated True) = 24"
  by (simp add: evaluated_True)


lemma evaluated_True_distinct: "distinct (evaluated True)"
  by (simp add: evaluated_True)


lemma evaluated_False_length: "length (evaluated False) = 48"
  by (simp add: evaluated_def reflection_tables)


lemma evaluated_True_proper: "evaluated True = filter proper (evaluated False)"
  by (simp add: evaluated_def reflection_tables proper_def transform_matrix_def)


lemma evaluated_True_all_proper: "cand \<in> set (evaluated True) \<Longrightarrow> proper cand"
  by (simp add: evaluated_True_proper)


lemma ebind_Inr: "ebind m f = Inr y \<longleftrightarrow> (\<exists>x. m = Inr x \<and> f x = Inr y)"
  by (cases m) (simp_all add: ebind_def)

lemma ebind_Inl: "ebind m f = Inl e \<longleftrightarrow> m = Inl e \<or> (\<exists>x. m = Inr x \<and> f x = Inl e)"
  by (cases m) (simp_all add: ebind_def)

lemma score_candidate_min:
  assumes "score_candidate p_atoms q_atoms p_coord q_coord reorder_method rotation_method
             swap reflection st = Inr st'"
  shows "(min_swap st' = min_swap st \<and> min_reflection st' = min_reflection st)
         \<or> (min_swap st' = Some swap \<and> min_reflection st' = Some reflection)"
proof -
  from assms obtain rv where
    "(case rv of (review, tmp_coord) \<Rightarrow>
        ebind (case rotation_method of
                 None \<Rightarrow> rmsd p_coord tmp_coord
               | Some rotation \<Rightarrow> rotation p_coord tmp_coord)
          (\<lambda>this_rmsd.
             if (case min_rmsd st of None \<Rightarrow> True | Some m \<Rightarrow> this_rmsd < m)
             then Inr \<lparr> min_rmsd = Some this_rmsd, min_swap = Some swap,
                        min_reflection = Some reflection, min_review = review,
                        tmp_review = review \<rparr>
             else Inr (st \<lparr> tmp_review := review \<rparr>))) = Inr st'"
    unfolding score_candidate_def Let_def ebind_Inr by blast
  then obtain review this_rmsd where
    "(if (case min_rmsd st of None \<Rightarrow> True | Some m \<Rightarrow> this_rmsd < m)
      then Inr \<lparr> min_rmsd = Some this_rmsd, min_swap = Some swap,
                 min_reflection = Some reflection, min_review = review,
                 tmp_review = review \<rparr>
      else Inr (st \<lparr> tmp_review := review \<rparr>)) = (Inr st' :: error + search)"
    by (cases rv) (auto simp add: ebind_Inr)
  then show ?thesis
    by (cases "case min_rmsd st of None \<Rightarrow> True | Some m \<Rightarrow> this_rmsd < m") auto
qed


lemma reflection_loop_min:
  assumes "efold (reflection_step p_atoms q_atoms p_coord q_coord reorder_method
                    rotation_method keep_stereo) pairs st = Inr st'"
  shows "(min_swap st' = min_swap st \<and> min_reflection st' = min_reflection st)
         \<or> (\<exists>swap i reflection j. ((swap, i), (reflection, j)) \<in> set pairs
               \<and> \<not> (keep_stereo \<and> i * j = - 1)
               \<and> min_swap st' = Some swap \<and> min_reflection st' = Some reflection)"
  using assms
proof (induction pairs arbitrary: st)
  case Nil
  then show ?case by simp
next
  case (Cons pair pairs)
  obtain swap i reflection j where pair: "pair = ((swap, i), (reflection, j))"
    by (metis prod.collapse)
  from Cons.prems obtain st1 where
    step: "reflection_step p_atoms q_atoms p_coord q_coord reorder_method rotation_method
             keep_stereo pair st = Inr st1"
    and rest: "efold (reflection_step p_atoms q_atoms p_coord q_coord reorder_method
                 rotation_method keep_stereo) pairs st1 = Inr st'"
    unfolding efold.simps ebind_Inr by blast
  have first: "(min_swap st1 = min_swap st \<and> min_reflection st1 = min_reflection st)
      \<or> (\<not> (keep_stereo \<and> i * j = - 1)
          \<and> min_swap st1 = Some swap \<and> min_reflection st1 = Some reflection)"
  proof (cases "keep_stereo \<and> i * j = - 1")
    case True
    with step pair show ?thesis by simp
  next
    case False
    with step pair have "score_candidate p_atoms q_atoms p_coord q_coord reorder_method
        rotation_method swap reflection st = Inr st1"
      by (simp split: if_splits)
    from score_candidate_min [OF this] False show ?thesis by blast
  qed
  from Cons.IH [OF rest] show ?case
  proof (elim disjE exE conjE)
    assume same: "min_swap st' = min_swap st1" "min_reflection st' = min_reflection st1"
    from first show ?thesis
    proof (elim disjE conjE)
      assume "min_swap st1 = min_swap st" "min_reflection st1 = min_reflection st"
      with same show ?thesis by simp
    next
      assume "\<not> (keep_stereo \<and> i * j = - 1)" "min_swap st1 = Some swap"
        "min_reflection st1 = Some reflection"
      with same pair have "((swap, i), (reflection, j)) \<in> set (pair # pairs)
          \<and> \<not> (keep_stereo \<and> i * j = - 1)
          \<and> min_swap st' = Some swap \<and> min_reflection st' = Some reflection"
        by simp
      then show ?thesis by blast
    qed
  next
    fix swap' i' reflection' j'
    assume "((swap', i'), (reflection', j')) \<in> set pairs" "\<not> (keep_stereo \<and> i' * j' = - 1)"
      "min_swap st' = Some swap'" "min_reflection st' = Some reflection'"
    then have "((swap', i'), (reflection', j')) \<in> set (pair # pairs)
          \<and> \<not> (keep_stereo \<and> i' * j' = - 1)
          \<and> min_swap st' = Some swap' \<and> min_reflection st' = Some reflection'"
      by simp
    then show ?thesis by blast
  qed
qed


lemma reflection_loop_filter:
  "efold (reflection_step p_atoms q_atoms p_coord q_coord reorder_method rotation_method
            keep_stereo) pairs st
   = efold (\<lambda>(swap, reflection).
              score_candidate p_atoms q_atoms p_coord q_coord reorder_method rotation_method
                swap reflection)
       (map (\<lambda>((swap, i), (reflection, j)). (swap, reflection))
          (filter (\<lambda>((swap, i), (reflection, j)). \<not> (keep_stereo \<and> i * j = - 1)) pairs)) st"
    (is "efold ?f pairs st = efold ?g (map ?strip (filter ?P pairs)) st")
proof (induction pairs arbitrary: st)
  case Nil
  show ?case by simp
next
  case (Cons pair pairs)
  obtain swap i reflection j where pair: "pair = ((swap, i), (reflection, j))"
    by (metis prod.collapse)
  have IH: "efold ?f pairs = efold ?g (map ?strip (filter ?P pairs))"
    using Cons.IH by (intro ext)
  show ?case
  proof (cases "keep_stereo \<and> i * j = - 1")
    case True
    then have "?f pair st = Inr st" and "filter ?P (pair # pairs) = filter ?P pairs"
      unfolding pair by simp_all
    then show ?thesis
      using Cons.IH [of st] by (simp add: ebind_def)
  next
    case False
    then have "?f pair st = ?g (swap, reflection) st"
      and "map ?strip (filter ?P (pair # pairs)) = (swap, reflection) # map ?strip (filter ?P pairs)"
      unfolding pair by auto
    then show ?thesis
      by (simp only: efold.simps IH)
  qed
qed


lemma reflection_loop_evaluated:
  "efold (reflection_step p_atoms q_atoms p_coord q_coord reorder_method rotation_method
            keep_stereo) reflection_pairs st
   = efold (\<lambda>(swap, reflection).
              score_candidate p_atoms q_atoms p_coord q_coord reorder_method rotation_method
                swap reflection) (evaluated keep_stereo) st"
  unfolding evaluated_def by (rule reflection_loop_filter)


text \<open>
  C5: with \<open>keep_stereo=True\<close> the state that \<open>check_reflections\<close> returns is the
  result of scoring, in order, exactly the candidates of \<open>evaluated True\<close> and no
  other: these are 24 distinct pairs, the proper ones among the 48 (parity of
  the axis swap times parity of the reflection is +1, and the map has determinant +1),
  and the swap and reflection returned as the minimum are one of them.
\<close>


theorem check_reflections_keep_stereo:
  assumes "check_reflections p_atoms q_atoms p_coord q_coord reorder_method rotation_method True
             = Inr st"
    and "min_swap st = Some swap" and "min_reflection st = Some reflection"
  shows "efold (\<lambda>(swap, reflection).
                  score_candidate p_atoms q_atoms p_coord q_coord reorder_method
                    rotation_method swap reflection) (evaluated True) search_init
         = Inr st
       \<and> length (evaluated True) = 24 \<and> distinct (evaluated True)
       \<and> length (evaluated False) = 48
       \<and> evaluated True = filter proper (evaluated False)
       \<and> (swap, reflection) \<in> set (evaluated True)
       \<and> swap_sign swap * reflection_sign reflection = 1
       \<and> det (transform_matrix swap reflection) = 1"
proof -
  from assms(1) have loop: "efold (reflection_step p_atoms q_atoms p_coord q_coord
      reorder_method rotation_method True) reflection_pairs search_init = Inr st"
    by (auto simp add: check_reflections_def ebind_def split: sum.splits if_splits)
  from reflection_loop_min [OF loop] assms(2,3)
  obtain i j where "((swap, i), (reflection, j)) \<in> set reflection_pairs" and "i * j \<noteq> - 1"
    by (auto simp add: search_init_def)
  then have mem: "(swap, reflection) \<in> set (evaluated True)"
    by (force simp add: evaluated_def)
  from evaluated_True_all_proper [OF mem]
  have "swap_sign swap * reflection_sign reflection = 1"
    and "det (transform_matrix swap reflection) = 1"
    by (simp_all add: proper_def)
  moreover have "efold (\<lambda>(swap, reflection).
                  score_candidate p_atoms q_atoms p_coord q_coord reorder_method
                    rotation_method swap reflection) (evaluated True) search_init
         = Inr st"
    using loop by (simp only: reflection_loop_evaluated)
  ultimately show ?thesis
    using mem evaluated_True_length evaluated_True_distinct evaluated_False_length
      evaluated_True_proper
    by (intro conjI)
qed


theorem check_reflections_keep_stereo_witness:
  "check_reflections [''H'', ''H''] [''H'', ''H''] [(1, 0, 0), (- 1, 0, 0)]
       [(0, 1, 0), (0, - 1, 0)] None None True
     = Inr \<lparr> min_rmsd = Some 0, min_swap = Some (1, 0, 2), min_reflection = Some (1, - 1, 1),
             min_review = None, tmp_review = None \<rparr>
   \<and> efold (\<lambda>(swap, reflection).
              score_candidate [''H'', ''H''] [''H'', ''H''] [(1, 0, 0), (- 1, 0, 0)]
                [(0, 1, 0), (0, - 1, 0)] None None swap reflection) (evaluated True) search_init
       = Inr \<lparr> min_rmsd = Some 0, min_swap = Some (1, 0, 2),
               min_reflection = Some (1, - 1, 1), min_review = None, tmp_review = None \<rparr>
   \<and> length (evaluated True) = 24
   \<and> ((1, 0, 2), (1, - 1, 1)) \<in> set (evaluated True)
   \<and> swap_sign (1, 0, 2) * reflection_sign (1, - 1, 1) = 1
   \<and> det (transform_matrix (1, 0, 2) (1, - 1, 1)) = 1"
proof -
  have run: "check_reflections [''H'', ''H''] [''H'', ''H''] [(1, 0, 0), (- 1, 0, 0)]
       [(0, 1, 0), (0, - 1, 0)] None None True
     = Inr \<lparr> min_rmsd = Some 0, min_swap = Some (1, 0, 2), min_reflection = Some (1, - 1, 1),
             min_review = None, tmp_review = None \<rparr>"
    by (simp add: check_reflections_def reflection_tables score_candidate_def
        reflect_coord_def center_def centroid_def rows_dot_mat_def vecsum_def vzero_def
        rmsd_def broadcast_def total_def search_init_def ebind_def all_equal_def)
  have "min_swap \<lparr> min_rmsd = Some 0, min_swap = Some (1, 0, 2),
          min_reflection = Some (1, - 1, 1), min_review = None, tmp_review = None \<rparr>
        = Some (1, 0, 2)"
    and "min_reflection \<lparr> min_rmsd = Some 0, min_swap = Some (1, 0, 2),
          min_reflection = Some (1, - 1, 1), min_review = None, tmp_review = None \<rparr>
        = Some (1, - 1, 1)"
    by simp_all
  from check_reflections_keep_stereo [OF run this] run show ?thesis
    by (elim conjE, intro conjI)
qed


section \<open>The principal axis\<close>

lemma lower_C: "lower ''C'' = ''c''"
  by code_simp

lemma element_weight_C: "element_weight ''C'' = Inr 12.011"
  by (simp add: element_weight_def lower_C ELEMENTS_WEIGHTS_def)

lemma planar_carbons_cm:
  "get_cm [''C'', ''C'', ''C'', ''C'']
     [(- 29, 22, 14), (29, - 22, - 14), (4, - 38, 68), (- 4, 38, - 68)] = Inr (0, 0, 0)"
  by (simp add: get_cm_def element_weight_C ebind_def vecsum_def vzero_def)

lemma planar_carbons_tensor:
  "get_inertia_tensor [''C'', ''C'', ''C'', ''C'']
     [(- 29, 22, 14), (29, - 22, - 14), (4, - 38, 68), (- 4, 38, - 68)]
   = Inr (mscale 12.011 ((13496, 1580, 268), (1580, 11354, 4552), (268, 4552, 5570)))"
  unfolding get_inertia_tensor_def planar_carbons_cm
  by (simp add: element_weight_C ebind_def vzero_def)

text \<open>
  C2 does not hold of the code. Four carbon atoms at \<open>\<plusminus>(-29, 22, 14)\<close> and
  \<open>\<plusminus>(4, -38, 68)\<close> have the inertia tensor \<open>12.011 * T\<close>, whose eigenvalues are
  \<open>12.011\<close> times 12168, 3042 and 15210 with the unit eigenvectors \<open>(-29, 22, 14) / 39\<close>,
  \<open>(2, -19, 34) / 39\<close> and \<open>(26, 26, 13) / 39\<close>. Given this decomposition, eigenvectors
  in the columns, \<open>get_principal_axis\<close> returns the row \<open>(14, 34, 13) / 39\<close> of the
  eigenvector array: it is not an eigenvector of the tensor for the largest eigenvalue,
  which is the column at the same index.
\<close>

theorem get_principal_axis_returns_row:
  "get_inertia_tensor [''C'', ''C'', ''C'', ''C'']
       [(- 29, 22, 14), (29, - 22, - 14), (4, - 38, 68), (- 4, 38, - 68)]
     = Inr (mscale 12.011 ((13496, 1580, 268), (1580, 11354, 4552), (268, 4552, 5570)))
   \<and> is_eig (mscale 12.011 ((13496, 1580, 268), (1580, 11354, 4552), (268, 4552, 5570)))
        ((12.011 * 12168, 12.011 * 3042, 12.011 * 15210),
         ((- 29 / 39, 2 / 39, 26 / 39), (22 / 39, - 19 / 39, 26 / 39), (14 / 39, 34 / 39, 13 / 39)))
   \<and> get_principal_axis
        (\<lambda>I. ((12.011 * 12168, 12.011 * 3042, 12.011 * 15210),
              ((- 29 / 39, 2 / 39, 26 / 39), (22 / 39, - 19 / 39, 26 / 39),
               (14 / 39, 34 / 39, 13 / 39))))
        [''C'', ''C'', ''C'', ''C'']
        [(- 29, 22, 14), (29, - 22, - 14), (4, - 38, 68), (- 4, 38, - 68)]
     = Inr (14 / 39, 34 / 39, 13 / 39)
   \<and> \<not> is_eigenvector (mscale 12.011 ((13496, 1580, 268), (1580, 11354, 4552), (268, 4552, 5570)))
          (12.011 * 15210) (14 / 39, 34 / 39, 13 / 39)
   \<and> is_eigenvector (mscale 12.011 ((13496, 1580, 268), (1580, 11354, 4552), (268, 4552, 5570)))
          (12.011 * 15210) (26 / 39, 26 / 39, 13 / 39)"
proof (intro conjI)
  show "get_principal_axis
        (\<lambda>I. ((12.011 * 12168, 12.011 * 3042, 12.011 * 15210),
              ((- 29 / 39, 2 / 39, 26 / 39), (22 / 39, - 19 / 39, 26 / 39),
               (14 / 39, 34 / 39, 13 / 39))))
        [''C'', ''C'', ''C'', ''C'']
        [(- 29, 22, 14), (29, - 22, - 14), (4, - 38, 68), (- 4, 38, - 68)]
     = Inr (14 / 39, 34 / 39, 13 / 39)"
    unfolding get_principal_axis_def planar_carbons_tensor by (simp add: ebind_def)
qed (simp_all add: planar_carbons_tensor is_eig_def is_eigenvector_def mcol_def vdot_def vzero_def)

section \<open>Matrix algebra for the optimal rotation\<close>

lemma mat_cases:
  obtains a b c d e f g h i where "A = ((a, b, c), (d, e, f), (g, h, i))"
  by (metis prod_cases3)

lemma mat_dot_assoc: "mat_dot (mat_dot A B) C = mat_dot A (mat_dot B C)"
proof -
  obtain a b c d e f g h i where A: "A = ((a, b, c), (d, e, f), (g, h, i))" by (rule mat_cases)
  obtain a' b' c' d' e' f' g' h' i' where B: "B = ((a', b', c'), (d', e', f'), (g', h', i'))"
    by (rule mat_cases)
  obtain a'' b'' c'' d'' e'' f'' g'' h'' i'' where
    C: "C = ((a'', b'', c''), (d'', e'', f''), (g'', h'', i''))"
    by (rule mat_cases)
  show ?thesis unfolding A B C by (simp add: algebra_simps)
qed

lemma transpose_mat_dot: "transpose_m (mat_dot A B) = mat_dot (transpose_m B) (transpose_m A)"
proof -
  obtain a b c d e f g h i where A: "A = ((a, b, c), (d, e, f), (g, h, i))" by (rule mat_cases)
  obtain a' b' c' d' e' f' g' h' i' where B: "B = ((a', b', c'), (d', e', f'), (g', h', i'))"
    by (rule mat_cases)
  show ?thesis unfolding A B by (simp add: algebra_simps)
qed

lemma transpose_transpose: "transpose_m (transpose_m A) = A"
  by (rule mat_cases [of A]) simp

lemma tr_mat_dot_commute: "tr (mat_dot A B) = tr (mat_dot B A)"
proof -
  obtain a b c d e f g h i where A: "A = ((a, b, c), (d, e, f), (g, h, i))" by (rule mat_cases)
  obtain a' b' c' d' e' f' g' h' i' where B: "B = ((a', b', c'), (d', e', f'), (g', h', i'))"
    by (rule mat_cases)
  show ?thesis unfolding A B by (simp add: algebra_simps)
qed

lemma frob_tr: "frob A B = tr (mat_dot (transpose_m A) B)"
proof -
  obtain a b c d e f g h i where A: "A = ((a, b, c), (d, e, f), (g, h, i))" by (rule mat_cases)
  obtain a' b' c' d' e' f' g' h' i' where B: "B = ((a', b', c'), (d', e', f'), (g', h', i'))"
    by (rule mat_cases)
  show ?thesis unfolding A B by (simp add: vdot_def algebra_simps)
qed

lemma mat_dot_eye_left: "mat_dot eye A = A"
  by (rule mat_cases [of A]) (simp add: eye_def)

lemma mat_dot_eye_right: "mat_dot A eye = A"
  by (rule mat_cases [of A]) (simp add: eye_def)

lemma neg_last_col_diag: "neg_last_col V = mat_dot V (diag (1, 1, - 1))"
  by (rule mat_cases [of V]) simp

lemma transpose_diag: "transpose_m (diag s) = diag s"
  by (cases s) simp

lemma tr_diag: "tr (diag s) = vsum s"
  by (cases s) simp

lemma tr_mat_dot_diag:
  "tr (mat_dot T (diag s)) = vget (mrow T 0) 0 * vget s 0 + vget (mrow T 1) 1 * vget s 1
     + vget (mrow T 2) 2 * vget s 2"
  by (rule mat_cases [of T], cases s) simp

lemma orthogonal_transpose: "orthogonal A \<Longrightarrow> orthogonal (transpose_m A)"
  by (simp add: orthogonal_def transpose_transpose)

lemma orthogonal_mat_dot:
  assumes "orthogonal A" and "orthogonal B"
  shows "orthogonal (mat_dot A B)"
proof -
  have "mat_dot (mat_dot A B) (transpose_m (mat_dot A B))
      = mat_dot A (mat_dot (mat_dot B (transpose_m B)) (transpose_m A))"
    by (simp add: transpose_mat_dot mat_dot_assoc)
  also have "\<dots> = eye"
    using assms by (simp add: orthogonal_def mat_dot_eye_left)
  finally have 1: "mat_dot (mat_dot A B) (transpose_m (mat_dot A B)) = eye" .
  have "mat_dot (transpose_m (mat_dot A B)) (mat_dot A B)
      = mat_dot (transpose_m B) (mat_dot (mat_dot (transpose_m A) A) B)"
    by (simp add: transpose_mat_dot mat_dot_assoc)
  also have "\<dots> = eye"
    using assms by (simp add: orthogonal_def mat_dot_eye_left)
  finally show ?thesis
    using 1 by (simp add: orthogonal_def)
qed

lemma orthogonal_diag_sign: "orthogonal (diag (1, 1, - 1))"
  by (simp add: orthogonal_def eye_def)

lemma orthogonal_row_unit:
  assumes "orthogonal T"
  shows "vdot (mrow T 0) (mrow T 0) = 1" "vdot (mrow T 1) (mrow T 1) = 1"
    "vdot (mrow T 2) (mrow T 2) = 1"
proof -
  obtain a b c d e f g h i where T: "T = ((a, b, c), (d, e, f), (g, h, i))" by (rule mat_cases)
  from assms have "mat_dot T (transpose_m T) = eye" by (simp add: orthogonal_def)
  then show "vdot (mrow T 0) (mrow T 0) = 1" "vdot (mrow T 1) (mrow T 1) = 1"
    "vdot (mrow T 2) (mrow T 2) = 1"
    unfolding T by (simp_all add: eye_def vdot_def algebra_simps)
qed

lemma square_le_one: "x * x \<le> 1 \<Longrightarrow> x \<le> (1::real)"
proof (rule ccontr)
  assume "x * x \<le> 1" and "\<not> x \<le> 1"
  then have "1 < x" by simp
  then have "1 * 1 < x * x"
    by (intro mult_strict_mono) simp_all
  with \<open>x * x \<le> 1\<close> show False by simp
qed

lemma orthogonal_diag_le:
  assumes "orthogonal T"
  shows "vget (mrow T 0) 0 \<le> 1" "vget (mrow T 1) 1 \<le> 1" "vget (mrow T 2) 2 \<le> 1"
proof -
  obtain a b c d e f g h i where T: "T = ((a, b, c), (d, e, f), (g, h, i))" by (rule mat_cases)
  from orthogonal_row_unit [OF assms]
  have "a * a + b * b + c * c = 1" "d * d + e * e + f * f = 1" "g * g + h * h + i * i = 1"
    unfolding T by (simp_all add: vdot_def)
  then have "a * a \<le> 1" "e * e \<le> 1" "i * i \<le> 1"
    using zero_le_square [of a] zero_le_square [of b] zero_le_square [of c]
      zero_le_square [of d] zero_le_square [of e] zero_le_square [of f]
      zero_le_square [of g] zero_le_square [of h] zero_le_square [of i]
    by linarith+
  then have "a \<le> 1" "e \<le> 1" "i \<le> 1"
    using square_le_one [of a] square_le_one [of e] square_le_one [of i] by blast+
  then show "vget (mrow T 0) 0 \<le> 1" "vget (mrow T 1) 1 \<le> 1" "vget (mrow T 2) 2 \<le> 1"
    unfolding T by simp_all
qed

lemma adjugate_mat_dot: "mat_dot (adjugate A) A = mscale (det A) eye"
proof -
  obtain a b c d e f g h i where A: "A = ((a, b, c), (d, e, f), (g, h, i))" by (rule mat_cases)
  show ?thesis unfolding A by (simp add: eye_def algebra_simps)
qed

lemma mat_dot_mscale_left: "mat_dot (mscale k A) B = mscale k (mat_dot A B)"
proof -
  obtain a b c d e f g h i where A: "A = ((a, b, c), (d, e, f), (g, h, i))" by (rule mat_cases)
  obtain a' b' c' d' e' f' g' h' i' where B: "B = ((a', b', c'), (d', e', f'), (g', h', i'))"
    by (rule mat_cases)
  show ?thesis unfolding A B by (simp add: algebra_simps)
qed

lemma tr_mscale: "tr (mscale k A) = k * tr A"
  by (rule mat_cases [of A]) (simp add: algebra_simps)

lemma tr_transpose: "tr (transpose_m A) = tr A"
  by (rule mat_cases [of A]) simp

lemma orthogonal_adjugate:
  assumes "orthogonal A"
  shows "adjugate A = mscale (det A) (transpose_m A)"
proof -
  have "adjugate A = mat_dot (adjugate A) (mat_dot A (transpose_m A))"
    using assms by (simp add: orthogonal_def mat_dot_eye_right)
  also have "\<dots> = mat_dot (mat_dot (adjugate A) A) (transpose_m A)"
    by (simp add: mat_dot_assoc)
  also have "\<dots> = mscale (det A) (transpose_m A)"
    by (simp add: adjugate_mat_dot mat_dot_mscale_left mat_dot_eye_left)
  finally show ?thesis .
qed

lemma tr_square_adjugate: "tr A * tr A - tr (mat_dot A A) = 2 * tr (adjugate A)"
proof -
  obtain a b c d e f g h i where A: "A = ((a, b, c), (d, e, f), (g, h, i))" by (rule mat_cases)
  show ?thesis unfolding A by (simp add: algebra_simps)
qed

lemma tr_orthogonal_le: 
  assumes "orthogonal T"
  shows "tr T \<le> 3"
proof -
  obtain a b c d e f g h i where T: "T = ((a, b, c), (d, e, f), (g, h, i))" by (rule mat_cases)
  from orthogonal_diag_le [OF assms] show ?thesis
    unfolding T by simp
qed

lemma improper_trace_le:
  assumes "orthogonal T" and "det T = - 1"
  shows "tr T \<le> 1"
proof (rule ccontr)
  assume "\<not> tr T \<le> 1"
  then have t: "1 < tr T" by simp
  have "tr (adjugate T) = - tr T"
    using assms by (simp add: orthogonal_adjugate tr_mscale tr_transpose)
  with tr_square_adjugate [of T] have eq: "tr T * tr T + 2 * tr T = tr (mat_dot T T)"
    by simp
  have "tr (mat_dot T T) \<le> 3"
    by (rule tr_orthogonal_le) (rule orthogonal_mat_dot [OF assms(1) assms(1)])
  moreover from t have "1 * 1 < tr T * tr T"
    by (intro mult_strict_mono) simp_all
  ultimately show False
    using eq t by simp
qed

lemma diag_trace_bound:
  assumes T: "orthogonal T" and S: "descending S"
  shows "tr (mat_dot T (diag S)) \<le> vsum S"
    and "det T = - 1 \<Longrightarrow> tr (mat_dot T (diag S)) \<le> vsum (neg_last S)"
proof -
  obtain a b c d e f g h i where T': "T = ((a, b, c), (d, e, f), (g, h, i))" by (rule mat_cases)
  obtain s1 s2 s3 where S': "S = (s1, s2, s3)" by (metis prod_cases3)
  from S have s: "s2 \<le> s1" "s3 \<le> s2" "0 \<le> s3" unfolding S' by simp_all
  from orthogonal_diag_le [OF T] have le: "a \<le> 1" "e \<le> 1" "i \<le> 1"
    unfolding T' by simp_all
  have val: "tr (mat_dot T (diag S)) = a * s1 + e * s2 + i * s3"
    unfolding T' S' by simp
  have "a * s1 \<le> 1 * s1" "e * s2 \<le> 1 * s2" "i * s3 \<le> 1 * s3"
    using le s by (intro mult_right_mono; simp)+
  then have "a * s1 + e * s2 + i * s3 \<le> s1 + s2 + s3"
    by simp
  then show "tr (mat_dot T (diag S)) \<le> vsum S"
    by (simp add: val) (simp add: S')
  assume "det T = - 1"
  from improper_trace_le [OF T this] have t: "a + e + i \<le> 1"
    unfolding T' by simp
  have "a * s1 + e * s2 + i * s3 = (a + e + i) * s3 + a * (s1 - s3) + e * (s2 - s3)"
    by (simp add: algebra_simps)
  moreover have "(a + e + i) * s3 \<le> 1 * s3" "a * (s1 - s3) \<le> 1 * (s1 - s3)"
    "e * (s2 - s3) \<le> 1 * (s2 - s3)"
    using le s t by (intro mult_right_mono; simp)+
  ultimately have "a * s1 + e * s2 + i * s3 \<le> s1 + s2 - s3"
    by simp
  then show "tr (mat_dot T (diag S)) \<le> vsum (neg_last S)"
    by (simp add: val) (simp add: S')
qed

lemma frob_factors:
  "frob R (mat_dot (mat_dot V (diag S)) W)
     = tr (mat_dot (mat_dot (mat_dot W (transpose_m R)) V) (diag S))"
proof -
  have "frob R (mat_dot (mat_dot V (diag S)) W)
      = tr (mat_dot (transpose_m R) (mat_dot (mat_dot V (diag S)) W))"
    by (rule frob_tr)
  also have "\<dots> = tr (mat_dot (mat_dot (mat_dot (transpose_m R) V) (diag S)) W)"
    by (simp add: mat_dot_assoc)
  also have "\<dots> = tr (mat_dot W (mat_dot (mat_dot (transpose_m R) V) (diag S)))"
    by (rule tr_mat_dot_commute)
  also have "\<dots> = tr (mat_dot (mat_dot (mat_dot W (transpose_m R)) V) (diag S))"
    by (simp add: mat_dot_assoc)
  finally show ?thesis .
qed

lemma svd_rotation_form:
  "svd_rotation (V, S, W)
     = (if det V * det W < 0
        then (mat_dot (mat_dot V (diag (1, 1, - 1))) W, neg_last S)
        else (mat_dot V W, S))"
  by (simp add: Let_def neg_last_col_diag)

declare svd_rotation.simps [simp del]

lemma svd_rotation_proper:
  assumes "orthogonal V" and "orthogonal W"
  shows "proper_rotation (fst (svd_rotation (V, S, W)))"
proof -
  have "orthogonal (fst (svd_rotation (V, S, W)))"
    using assms orthogonal_diag_sign
    by (simp add: svd_rotation_form orthogonal_mat_dot)
  with svd_rotation_det [OF assms, of S] show ?thesis
    by (simp add: proper_rotation_def)
qed

lemma svd_rotation_frob:
  assumes "is_svd C (V, S, W)"
  shows "frob (fst (svd_rotation (V, S, W))) C = vsum (snd (svd_rotation (V, S, W)))"
proof -
  from assms have V: "orthogonal V" and W: "orthogonal W"
    and C: "C = mat_dot (mat_dot V (diag S)) W"
    by simp_all
  from V W have VV: "mat_dot (transpose_m V) V = eye" and WW: "mat_dot W (transpose_m W) = eye"
    by (simp_all add: orthogonal_def)
  have key: "mat_dot (mat_dot W (transpose_m (mat_dot (mat_dot V D) W))) V = transpose_m D" for D
  proof -
    have "mat_dot (mat_dot W (transpose_m (mat_dot (mat_dot V D) W))) V
        = mat_dot (mat_dot (mat_dot W (transpose_m W)) (transpose_m D))
            (mat_dot (transpose_m V) V)"
      by (simp add: transpose_mat_dot mat_dot_assoc)
    then show ?thesis
      by (simp add: VV WW mat_dot_eye_left mat_dot_eye_right)
  qed
  show ?thesis
  proof (cases "det V * det W < 0")
    case True
    have "frob (mat_dot (mat_dot V (diag (1, 1, - 1))) W) C
        = tr (mat_dot (transpose_m (diag (1, 1, - 1))) (diag S))"
      unfolding C frob_factors key ..
    also have "\<dots> = vsum (neg_last S)"
      by (cases S) simp
    finally show ?thesis
      using True by (simp add: svd_rotation_form)
  next
    case False
    have "frob (mat_dot (mat_dot V eye) W) C = tr (mat_dot (transpose_m eye) (diag S))"
      unfolding C frob_factors key ..
    also have "\<dots> = vsum S"
      by (cases S) (simp add: eye_def)
    finally show ?thesis
      using False by (simp add: svd_rotation_form mat_dot_eye_right)
  qed
qed

lemma svd_rotation_optimal:
  assumes "is_svd C (V, S, W)" and "proper_rotation R"
  shows "frob R C \<le> vsum (snd (svd_rotation (V, S, W)))"
proof -
  from assms have V: "orthogonal V" and W: "orthogonal W" and S: "descending S"
    and C: "C = mat_dot (mat_dot V (diag S)) W"
    and R: "orthogonal R" "det R = 1"
    by (simp_all add: proper_rotation_def)
  let ?T = "mat_dot (mat_dot W (transpose_m R)) V"
  have T: "orthogonal ?T"
    using V W R(1) by (intro orthogonal_mat_dot orthogonal_transpose)
  have detT: "det ?T = det V * det W"
    using R(2) by (simp add: det_mat_dot det_transpose_m)
  have val: "frob R C = tr (mat_dot ?T (diag S))"
    unfolding C by (rule frob_factors)
  show ?thesis
  proof (cases "det V * det W < 0")
    case True
    with orthogonal_det [OF V] orthogonal_det [OF W] have "det ?T = - 1"
      unfolding detT by auto
    from diag_trace_bound(2) [OF T S this] True show ?thesis
      by (simp add: val svd_rotation_form)
  next
    case False
    with diag_trace_bound(1) [OF T S] show ?thesis
      by (simp add: val svd_rotation_form)
  qed
qed

section \<open>The weighted deviation of a fit\<close>

lemma vec_cases:
  obtains x y z where "v = (x, y, z)"
  by (metis prod_cases3)

lemma vdot_commute: "vdot a b = vdot b a"
  by (rule vec_cases [of a], rule vec_cases [of b]) (simp add: vdot_def algebra_simps)

lemma vdot_vadd_left: "vdot (vadd a b) c = vdot a c + vdot b c"
  by (rule vec_cases [of a], rule vec_cases [of b], rule vec_cases [of c])
    (simp add: vdot_def algebra_simps)

lemma vdot_vadd_right: "vdot c (vadd a b) = vdot c a + vdot c b"
  by (simp add: vdot_commute [of c] vdot_vadd_left)

lemma vdot_vsub_left: "vdot (vsub a b) c = vdot a c - vdot b c"
  by (rule vec_cases [of a], rule vec_cases [of b], rule vec_cases [of c])
    (simp add: vdot_def algebra_simps)

lemma vdot_vsub_right: "vdot c (vsub a b) = vdot c a - vdot c b"
  by (simp add: vdot_commute [of c] vdot_vsub_left)

lemma vdot_vscale_left: "vdot (vscale k a) b = k * vdot a b"
  by (rule vec_cases [of a], rule vec_cases [of b]) (simp add: vdot_def algebra_simps)

lemma vdot_vscale_right: "vdot a (vscale k b) = k * vdot a b"
  by (simp add: vdot_commute [of a] vdot_vscale_left)

lemma vdot_vzero_right: "vdot a vzero = 0"
  by (rule vec_cases [of a]) (simp add: vdot_def vzero_def)

lemma vdot_nonneg: "0 \<le> vdot a a"
  by (rule vec_cases [of a]) (simp add: vdot_def)

lemma mat_dot_vec_vadd: "mat_dot_vec R (vadd a b) = vadd (mat_dot_vec R a) (mat_dot_vec R b)"
  by (rule mat_cases [of R], rule vec_cases [of a], rule vec_cases [of b])
    (simp add: vdot_def algebra_simps)

lemma mat_dot_vec_vscale: "mat_dot_vec R (vscale k a) = vscale k (mat_dot_vec R a)"
  by (rule mat_cases [of R], rule vec_cases [of a]) (simp add: vdot_def algebra_simps)

lemma mat_dot_vec_vzero: "mat_dot_vec R vzero = vzero"
  by (rule mat_cases [of R]) (simp add: vdot_def vzero_def)

lemma vec_dot_mat_transpose: "vec_dot_mat x (transpose_m R) = mat_dot_vec R x"
  by (rule mat_cases [of R], rule vec_cases [of x]) (simp add: vdot_def algebra_simps)

lemma frob_madd_right: "frob R (madd A B) = frob R A + frob R B"
  by (rule mat_cases [of R], rule mat_cases [of A], rule mat_cases [of B])
    (simp add: vdot_def algebra_simps)

lemma frob_msub_right: "frob R (msub A B) = frob R A - frob R B"
  by (rule mat_cases [of R], rule mat_cases [of A], rule mat_cases [of B])
    (simp add: vdot_def algebra_simps)

lemma frob_mscale_right: "frob R (mscale k A) = k * frob R A"
  by (rule mat_cases [of R], rule mat_cases [of A]) (simp add: vdot_def algebra_simps)

lemma frob_mscale_left: "frob (mscale k R) A = k * frob R A"
  by (rule mat_cases [of R], rule mat_cases [of A]) (simp add: vdot_def algebra_simps)

lemma frob_mzero: "frob R mzero = 0"
  by (rule mat_cases [of R]) (simp add: vdot_def mzero_def vzero_def)

lemma frob_outer: "frob R (outer a b) = vdot a (mat_dot_vec R b)"
  by (rule mat_cases [of R], rule vec_cases [of a], rule vec_cases [of b])
    (simp add: vdot_def algebra_simps)

lemma vdot_mat_dot_vec:
  "vdot (mat_dot_vec A x) (mat_dot_vec B y) = vdot x (mat_dot_vec (mat_dot (transpose_m A) B) y)"
  by (rule mat_cases [of A], rule mat_cases [of B], rule vec_cases [of x], rule vec_cases [of y])
    (simp add: vdot_def algebra_simps)

lemma mat_dot_vec_eye: "mat_dot_vec eye x = x"
  by (rule vec_cases [of x]) (simp add: eye_def vdot_def)

lemma orthogonal_norm:
  assumes "orthogonal R"
  shows "vdot (mat_dot_vec R x) (mat_dot_vec R x) = vdot x x"
  using assms by (simp add: vdot_mat_dot_vec orthogonal_def mat_dot_vec_eye)

lemma sq_dev_expand:
  assumes "orthogonal R"
  shows "vdot (vsub (vadd (mat_dot_vec R q) t) p) (vsub (vadd (mat_dot_vec R q) t) p)
     = vdot p p + vdot q q + vdot t t + 2 * vdot t (mat_dot_vec R q)
       - 2 * frob R (outer p q) - 2 * vdot t p"
proof -
  have c1: "vdot (mat_dot_vec R q) t = vdot t (mat_dot_vec R q)"
    and c2: "vdot (mat_dot_vec R q) p = vdot p (mat_dot_vec R q)"
    and c3: "vdot p t = vdot t p"
    by (rule vdot_commute)+
  show ?thesis
    by (simp add: vdot_vsub_left vdot_vsub_right vdot_vadd_left vdot_vadd_right
        orthogonal_norm [OF assms] frob_outer c1 c2 c3)
qed

lemma total_Cons: "total (x # xs) = vsum x + total xs"
  by (simp add: total_def)

lemma total_Nil: "total [] = 0"
  by (simp add: total_def)

lemma vecsum_Cons: "vecsum (x # xs) = vadd x (vecsum xs)"
  by (simp add: vecsum_def)

lemma vecsum_Nil: "vecsum [] = vzero"
  by (simp add: vecsum_def)

lemma msum_Cons: "msum (A # As) = madd A (msum As)"
  by (simp add: msum_def)

lemma msum_Nil: "msum [] = mzero"
  by (simp add: msum_def)

lemma vmul_weight: "vmul p (w, w, w) = vscale w p"
  by (rule vec_cases [of p]) (simp add: algebra_simps)

lemma vsum_vmul_sq: "vsum (vscale w (vmul p p)) = w * vdot p p"
  by (rule vec_cases [of p]) (simp add: vdot_def algebra_simps)

lemma apply_fit_map: "apply_fit R t Q = map (\<lambda>q. vadd (mat_dot_vec R q) t) Q"
  by (simp add: apply_fit_def rows_dot_mat_def vec_dot_mat_transpose comp_def)

lemma weighted_deviation_sum:
  assumes R: "orthogonal R" and len: "length P = length Q" "length Q = length w"
  shows "sum_list (map (\<lambda>(w, x, y). w * vdot (vsub x y) (vsub x y))
                    (zip w (zip (map (\<lambda>q. vadd (mat_dot_vec R q) t) Q) P)))
     = total (map2 vmul (map (\<lambda>p. vmul p p) P) (map (\<lambda>x. (x, x, x)) w))
       + total (map2 vmul (map (\<lambda>q. vmul q q) Q) (map (\<lambda>x. (x, x, x)) w))
       + sum_list w * vdot t t
       + 2 * vdot t (mat_dot_vec R (vecsum (map2 vmul Q (map (\<lambda>x. (x, x, x)) w))))
       - 2 * frob R (weighted_covariance P Q (map (\<lambda>x. (x, x, x)) w))
       - 2 * vdot t (vecsum (map2 vmul P (map (\<lambda>x. (x, x, x)) w)))"
  using len
proof (induction P Q w rule: list_induct3)
  case Nil
  show ?case
    by (simp add: total_Nil vecsum_Nil weighted_covariance_def msum_Nil frob_mzero
        mat_dot_vec_vzero vdot_vzero_right)
next
  case (Cons p P q Q w ws)
  have head: "w * vdot (vsub (vadd (mat_dot_vec R q) t) p) (vsub (vadd (mat_dot_vec R q) t) p)
      = w * vdot p p + w * vdot q q + w * vdot t t + 2 * (w * vdot t (mat_dot_vec R q))
        - 2 * (w * frob R (outer p q)) - 2 * (w * vdot t p)"
    by (simp add: sq_dev_expand [OF R] algebra_simps)
  have cov: "weighted_covariance (p # P) (q # Q) ((w, w, w) # map (\<lambda>x. (x, x, x)) ws)
      = madd (mscale w (outer p q)) (weighted_covariance P Q (map (\<lambda>x. (x, x, x)) ws))"
    by (simp add: weighted_covariance_def msum_Cons)
  show ?case
    using Cons.IH head
    by (simp add: cov total_Cons vecsum_Cons vmul_weight vsum_vmul_sq frob_madd_right
        frob_mscale_right mat_dot_vec_vadd mat_dot_vec_vscale vdot_vadd_right
        vdot_vscale_right algebra_simps)
qed

lemma total_weights3: "total (map (\<lambda>x. (x, x, x)) w) = 3 * sum_list w"
  by (induction w) (simp_all add: total_Nil total_Cons)

lemma broadcast_same: "length A = length B \<Longrightarrow> broadcast f A B = Inr (map2 f A B)"
  by (simp add: broadcast_def)

lemma weighted_sums_value:
  assumes "length P = length Q" and "length (weight_vector P W) = length P"
    and "sum_list (weight_vector P W) \<noteq> 0"
  shows "weighted_sums P Q W =
    Inr \<lparr> ws_C = mscale (1 / sum_list (weight_vector P W))
                    (msub (weighted_covariance P Q (weights3 P W))
                       (mscale (1 / sum_list (weight_vector P W))
                          (outer (vecsum (map2 vmul P (weights3 P W)))
                                 (vecsum (map2 vmul Q (weights3 P W)))))),
           ws_CMP = vecsum (map2 vmul P (weights3 P W)),
           ws_CMQ = vecsum (map2 vmul Q (weights3 P W)),
           ws_PSQ = total (map2 vmul (map (\<lambda>p. vmul p p) P) (weights3 P W))
                    - vsum (vmul (vecsum (map2 vmul P (weights3 P W)))
                                 (vecsum (map2 vmul P (weights3 P W))))
                      * (1 / sum_list (weight_vector P W)),
           ws_QSQ = total (map2 vmul (map (\<lambda>q. vmul q q) Q) (weights3 P W))
                    - vsum (vmul (vecsum (map2 vmul Q (weights3 P W)))
                                 (vecsum (map2 vmul Q (weights3 P W))))
                      * (1 / sum_list (weight_vector P W)),
           ws_iw = 1 / sum_list (weight_vector P W) \<rparr>"
proof -
  have len: "length (weights3 P W) = length P"
    using assms(2) by (simp add: weights3_def)
  have tot: "total (weights3 P W) = 3 * sum_list (weight_vector P W)"
    by (simp add: weights3_def total_weights3)
  have iw: "3 / total (weights3 P W) = 1 / sum_list (weight_vector P W)"
    using assms(3) by (simp add: tot)
  have nz: "total (weights3 P W) \<noteq> 0"
    using assms(3) by (simp add: tot)
  show ?thesis
    unfolding weighted_sums_def Let_def
    using assms(1) len nz by (simp add: broadcast_same iw)
qed

lemma sq_norm_vsub: "vdot (vsub a b) (vsub a b) = vdot a a + vdot b b - 2 * vdot a b"
proof -
  have "vdot b a = vdot a b" by (rule vdot_commute)
  then show ?thesis
    by (simp add: vdot_vsub_left vdot_vsub_right)
qed

lemma deviation_algebra:
  fixes sw :: real
  assumes sw: "sw \<noteq> 0"
    and num: "num = PP + QQ + sw * tt + 2 * trq - 2 * fm - 2 * tp"
  shows "num / sw
     = (PP - pp * (1 / sw) + (QQ - qq * (1 / sw))) * (1 / sw)
       - 2 * (1 / sw * (fm - 1 / sw * prq))
       + (tt + (1 / sw) * ((1 / sw) * (pp + qq - 2 * prq)) - 2 * ((1 / sw) * (tp - trq)))"
  using sw unfolding num by (simp add: field_simps)

lemma weighted_deviation_msd:
  assumes R: "orthogonal R"
    and len: "length P = length Q" "length (weight_vector P W) = length P"
    and sw: "sum_list (weight_vector P W) \<noteq> 0"
    and s: "weighted_sums P Q W = Inr s"
  shows "wmsd (weight_vector P W) (apply_fit R t Q) P
     = (ws_PSQ s + ws_QSQ s) * ws_iw s - 2 * frob R (ws_C s)
       + vdot (vsub t (vscale (ws_iw s) (vsub (ws_CMP s) (mat_dot_vec R (ws_CMQ s)))))
              (vsub t (vscale (ws_iw s) (vsub (ws_CMP s) (mat_dot_vec R (ws_CMQ s)))))"
proof -
  let ?w = "weight_vector P W"
  let ?W3 = "map (\<lambda>x. (x, x, x)) ?w"
  define sw where "sw = sum_list ?w"
  define cp where "cp = vecsum (map2 vmul P ?W3)"
  define cq where "cq = vecsum (map2 vmul Q ?W3)"
  define PP where "PP = total (map2 vmul (map (\<lambda>p. vmul p p) P) ?W3)"
  define QQ where "QQ = total (map2 vmul (map (\<lambda>q. vmul q q) Q) ?W3)"
  define M where "M = weighted_covariance P Q ?W3"
  define num where "num = sum_list (map (\<lambda>(w, x, y). w * vdot (vsub x y) (vsub x y))
                    (zip ?w (zip (map (\<lambda>q. vadd (mat_dot_vec R q) t) Q) P)))"
  have sw0: "sw \<noteq> 0" using sw by (simp add: sw_def)
  have num: "num = PP + QQ + sw * vdot t t + 2 * vdot t (mat_dot_vec R cq)
      - 2 * frob R M - 2 * vdot t cp"
    unfolding num_def PP_def QQ_def sw_def cq_def cp_def M_def
    using len by (intro weighted_deviation_sum [OF R]) simp_all
  from weighted_sums_value [OF len sw] s
  have sC: "ws_C s = mscale (1 / sw) (msub M (mscale (1 / sw) (outer cp cq)))"
    and sP: "ws_CMP s = cp" and sQ: "ws_CMQ s = cq"
    and sPSQ: "ws_PSQ s = PP - vsum (vmul cp cp) * (1 / sw)"
    and sQSQ: "ws_QSQ s = QQ - vsum (vmul cq cq) * (1 / sw)"
    and siw: "ws_iw s = 1 / sw"
    by (auto simp add: weights3_def sw_def cp_def cq_def PP_def QQ_def M_def)
  have lhs: "wmsd ?w (apply_fit R t Q) P = num / sw"
    by (simp add: wmsd_def apply_fit_map num_def sw_def)
  have fr: "frob R (ws_C s) = 1 / sw * (frob R M - 1 / sw * vdot cp (mat_dot_vec R cq))"
    by (simp add: sC frob_mscale_right frob_msub_right frob_outer)
  define g where "g = vsub cp (mat_dot_vec R cq)"
  have g1: "vdot g g = vdot cp cp + vdot cq cq - 2 * vdot cp (mat_dot_vec R cq)"
    unfolding g_def by (simp only: sq_norm_vsub orthogonal_norm [OF R])
  have g2: "vdot t g = vdot t cp - vdot t (mat_dot_vec R cq)"
    unfolding g_def by (rule vdot_vsub_right)
  have "vdot (vsub t (vscale (1 / sw) g)) (vsub t (vscale (1 / sw) g))
      = vdot t t + vdot (vscale (1 / sw) g) (vscale (1 / sw) g) - 2 * vdot t (vscale (1 / sw) g)"
    by (rule sq_norm_vsub)
  also have "\<dots> = vdot t t + (1 / sw) * ((1 / sw) * vdot g g) - 2 * ((1 / sw) * vdot t g)"
    by (simp only: vdot_vscale_left vdot_vscale_right)
  finally have dd: "vdot (vsub t (vscale (1 / sw) (vsub cp (mat_dot_vec R cq))))
                 (vsub t (vscale (1 / sw) (vsub cp (mat_dot_vec R cq))))
      = vdot t t + (1 / sw) * ((1 / sw) * (vdot cp cp + vdot cq cq - 2 * vdot cp (mat_dot_vec R cq)))
        - 2 * ((1 / sw) * (vdot t cp - vdot t (mat_dot_vec R cq)))"
    unfolding g1 g2 unfolding g_def .
  show ?thesis
    unfolding lhs sPSQ sQSQ siw fr sP sQ dd
    using deviation_algebra [OF sw0 num, of "vdot cp cp" "vdot cq cq" "vdot cp (mat_dot_vec R cq)"]
    by (simp add: vdot_def)
qed

section \<open>The weighted Kabsch fit is optimal\<close>

lemma wmsd_nonneg:
  assumes "\<forall>x \<in> set w. 0 \<le> x" and "0 < sum_list w"
  shows "0 \<le> wmsd w X Y"
proof -
  have "0 \<le> sum_list (map (\<lambda>(w, x, y). w * vdot (vsub x y) (vsub x y)) (zip w (zip X Y)))"
  proof (rule sum_list_nonneg)
    fix v assume "v \<in> set (map (\<lambda>(w, x, y). w * vdot (vsub x y) (vsub x y)) (zip w (zip X Y)))"
    then obtain a x y where "(a, x, y) \<in> set (zip w (zip X Y))"
      and v: "v = a * vdot (vsub x y) (vsub x y)"
      by auto
    then have "a \<in> set w" by (meson set_zip_leftD)
    with assms(1) v show "0 \<le> v"
      by (simp add: vdot_nonneg)
  qed
  with assms(2) show ?thesis
    by (simp add: wmsd_def)
qed

lemma vdot_vsub_self: "vdot (vsub a a) (vsub a a) = 0"
  by (simp add: sq_norm_vsub)

text \<open>
  What \<open>kabsch_weighted(P, Q, W)\<close> computes: it fits its second argument onto its
  first. For point sets of equal length, one non-negative weight for every point with a
  positive sum (or the default weights), and a decomposition that keeps its contract,
  the returned \<open>U\<close> is a proper rotation, the returned RMSD is the square root of the
  weighted mean squared deviation between \<open>Q U\<^sup>T + V\<close> and \<open>P\<close>, and no proper
  rotation with any translation brings \<open>Q\<close> closer to \<open>P\<close>.
\<close>

theorem kabsch_weighted_fits_second_onto_first:
  assumes "length P = length Q" and "length (weight_vector P W) = length P"
    and "\<forall>x \<in> set (weight_vector P W). 0 \<le> x" and "0 < sum_list (weight_vector P W)"
    and "weighted_sums P Q W = Inr s" and "is_svd (ws_C s) (svd (ws_C s))"
  shows "\<exists>U V r. kabsch_weighted svd P Q W = Inr (U, V, r)
           \<and> proper_rotation U
           \<and> r = sqrt (wmsd (weight_vector P W) (apply_fit U V Q) P)
           \<and> (\<forall>R t. proper_rotation R \<longrightarrow>
                  wmsd (weight_vector P W) (apply_fit U V Q) P
                  \<le> wmsd (weight_vector P W) (apply_fit R t Q) P)"
proof -
  let ?w = "weight_vector P W"
  obtain V0 S0 W0 where svd: "svd (ws_C s) = (V0, S0, W0)"
    by (metis prod_cases3)
  with assms(6) have is_svd: "is_svd (ws_C s) (V0, S0, W0)"
    by simp
  then have orth: "orthogonal V0" "orthogonal W0"
    by simp_all
  define U where "U = fst (svd_rotation (V0, S0, W0))"
  define S' where "S' = snd (svd_rotation (V0, S0, W0))"
  define V where "V = vscale (ws_iw s) (vsub (ws_CMP s) (mat_dot_vec U (ws_CMQ s)))"
  define msd where "msd = weighted_msd s S'"
  have rot: "svd_rotation (svd (ws_C s)) = (U, S')"
    by (simp add: svd U_def S'_def)
  have run: "kabsch_weighted svd P Q W = Inr (U, V, sqrt (if msd < 0 then 0 else msd))"
    by (simp add: kabsch_weighted_def assms(5) rot Let_def V_def msd_def)
  have U: "proper_rotation U"
    unfolding U_def by (rule svd_rotation_proper [OF orth])
  then have Uo: "orthogonal U"
    by (simp add: proper_rotation_def)
  have sw: "sum_list ?w \<noteq> 0"
    using assms(4) by simp
  have frobU: "frob U (ws_C s) = vsum S'"
    unfolding U_def S'_def by (rule svd_rotation_frob [OF is_svd])
  have dev: "wmsd ?w (apply_fit R t Q) P
      = (ws_PSQ s + ws_QSQ s) * ws_iw s - 2 * frob R (ws_C s)
        + vdot (vsub t (vscale (ws_iw s) (vsub (ws_CMP s) (mat_dot_vec R (ws_CMQ s)))))
               (vsub t (vscale (ws_iw s) (vsub (ws_CMP s) (mat_dot_vec R (ws_CMQ s)))))"
    if "orthogonal R" for R t
    by (rule weighted_deviation_msd [OF that assms(1,2) sw assms(5)])
  have fit: "wmsd ?w (apply_fit U V Q) P = msd"
    unfolding dev [OF Uo] msd_def weighted_msd_def frobU
    by (simp add: V_def vdot_vsub_self)
  have "0 \<le> wmsd ?w (apply_fit U V Q) P"
    by (rule wmsd_nonneg [OF assms(3,4)])
  with fit have r: "sqrt (if msd < 0 then 0 else msd) = sqrt (wmsd ?w (apply_fit U V Q) P)"
    by simp
  have best: "wmsd ?w (apply_fit U V Q) P \<le> wmsd ?w (apply_fit R t Q) P"
    if R: "proper_rotation R" for R t
  proof -
    from R have Ro: "orthogonal R" by (simp add: proper_rotation_def)
    have "frob R (ws_C s) \<le> vsum S'"
      unfolding S'_def by (rule svd_rotation_optimal [OF is_svd R])
    moreover have "0 \<le> vdot (vsub t (vscale (ws_iw s) (vsub (ws_CMP s) (mat_dot_vec R (ws_CMQ s)))))
               (vsub t (vscale (ws_iw s) (vsub (ws_CMP s) (mat_dot_vec R (ws_CMQ s)))))"
      by (rule vdot_nonneg)
    ultimately show ?thesis
      unfolding fit dev [OF Ro] msd_def weighted_msd_def by simp
  qed
  from run U r best show ?thesis
    by auto
qed

lemma translated_square_sums:
  "weighted_sums [(3, 0, 0), (- 1, 0, 0), (1, 1, 0), (1, - 1, 0)]
       [(2, 0, 0), (- 2, 0, 0), (0, 1, 0), (0, - 1, 0)] None
     = Inr \<lparr> ws_C = ((2, 0, 0), (0, 1 / 2, 0), (0, 0, 0)), ws_CMP = (1, 0, 0),
             ws_CMQ = (0, 0, 0), ws_PSQ = 5 / 2, ws_QSQ = 5 / 2, ws_iw = 1 \<rparr>"
  by (simp add: weighted_sums_def weights3_def weight_vector_def broadcast_def total_def
      weighted_covariance_def msum_def vecsum_def mzero_def vzero_def Let_def)

lemma translated_square_svd:
  "is_svd ((2, 0, 0), (0, 1 / 2, 0), (0, 0, 0)) (eye, (2, 1 / 2, 0), eye)"
  by (simp add: orthogonal_def eye_def)

text \<open>
  C1 does not hold of the code. \<open>Q\<close> is a rhombus around the origin and \<open>P\<close> is \<open>Q\<close>
  moved by \<open>(1, 0, 0)\<close>. The covariance is \<open>diag(2, 1/2, 0)\<close>, and \<open>kabsch_weighted(P, Q)\<close>
  returns the identity, the translation \<open>(1, 0, 0)\<close> and the RMSD 0. Applied to \<open>P\<close>, as
  the claim and the docstring of the function have it, they move \<open>P\<close> away from \<open>Q\<close>, to
  the RMS distance 2; applied to \<open>Q\<close> they give \<open>P\<close>.
\<close>

theorem kabsch_weighted_direction_counterexample:
  "is_svd ((2, 0, 0), (0, 1 / 2, 0), (0, 0, 0)) (eye, (2, 1 / 2, 0), eye)
   \<and> kabsch_weighted (\<lambda>C. (eye, (2, 1 / 2, 0), eye))
        [(3, 0, 0), (- 1, 0, 0), (1, 1, 0), (1, - 1, 0)]
        [(2, 0, 0), (- 2, 0, 0), (0, 1, 0), (0, - 1, 0)] None
       = Inr (eye, (1, 0, 0), 0)
   \<and> apply_fit eye (1, 0, 0) [(3, 0, 0), (- 1, 0, 0), (1, 1, 0), (1, - 1, 0)]
       = [(4, 0, 0), (0, 0, 0), (2, 1, 0), (2, - 1, 0)]
   \<and> apply_fit eye (1, 0, 0) [(3, 0, 0), (- 1, 0, 0), (1, 1, 0), (1, - 1, 0)]
       \<noteq> [(2, 0, 0), (- 2, 0, 0), (0, 1, 0), (0, - 1, 0)]
   \<and> rmsd (apply_fit eye (1, 0, 0) [(3, 0, 0), (- 1, 0, 0), (1, 1, 0), (1, - 1, 0)])
        [(2, 0, 0), (- 2, 0, 0), (0, 1, 0), (0, - 1, 0)] = Inr 2
   \<and> apply_fit eye (1, 0, 0) [(2, 0, 0), (- 2, 0, 0), (0, 1, 0), (0, - 1, 0)]
       = [(3, 0, 0), (- 1, 0, 0), (1, 1, 0), (1, - 1, 0)]"
proof -
  have "kabsch_weighted (\<lambda>C. (eye, (2, 1 / 2, 0), eye))
        [(3, 0, 0), (- 1, 0, 0), (1, 1, 0), (1, - 1, 0)]
        [(2, 0, 0), (- 2, 0, 0), (0, 1, 0), (0, - 1, 0)] None
       = Inr (eye, (1, 0, 0), 0)"
    unfolding kabsch_weighted_def translated_square_sums
    by (simp add: svd_rotation_form weighted_msd_def eye_def vdot_def)
  moreover have "rmsd (apply_fit eye (1, 0, 0) [(3, 0, 0), (- 1, 0, 0), (1, 1, 0), (1, - 1, 0)])
        [(2, 0, 0), (- 2, 0, 0), (0, 1, 0), (0, - 1, 0)] = Inr (sqrt 4)"
    by (simp add: apply_fit_def rows_dot_mat_def eye_def rmsd_def broadcast_def total_def)
  ultimately show ?thesis
    using translated_square_svd
    by (simp add: apply_fit_def rows_dot_mat_def eye_def)
qed

theorem kabsch_weighted_fits_second_onto_first_witness:
  "\<exists>U V r. kabsch_weighted (\<lambda>C. (eye, (2, 1 / 2, 0), eye))
              [(3, 0, 0), (- 1, 0, 0), (1, 1, 0), (1, - 1, 0)]
              [(2, 0, 0), (- 2, 0, 0), (0, 1, 0), (0, - 1, 0)] None = Inr (U, V, r)
     \<and> proper_rotation U
     \<and> r = sqrt (wmsd (weight_vector [(3, 0, 0), (- 1, 0, 0), (1, 1, 0), (1, - 1, 0)] None)
                  (apply_fit U V [(2, 0, 0), (- 2, 0, 0), (0, 1, 0), (0, - 1, 0)])
                  [(3, 0, 0), (- 1, 0, 0), (1, 1, 0), (1, - 1, 0)])
     \<and> (\<forall>R t. proper_rotation R \<longrightarrow>
            wmsd (weight_vector [(3, 0, 0), (- 1, 0, 0), (1, 1, 0), (1, - 1, 0)] None)
              (apply_fit U V [(2, 0, 0), (- 2, 0, 0), (0, 1, 0), (0, - 1, 0)])
              [(3, 0, 0), (- 1, 0, 0), (1, 1, 0), (1, - 1, 0)]
            \<le> wmsd (weight_vector [(3, 0, 0), (- 1, 0, 0), (1, 1, 0), (1, - 1, 0)] None)
                (apply_fit R t [(2, 0, 0), (- 2, 0, 0), (0, 1, 0), (0, - 1, 0)])
                [(3, 0, 0), (- 1, 0, 0), (1, 1, 0), (1, - 1, 0)])"
proof (rule kabsch_weighted_fits_second_onto_first [OF _ _ _ _ translated_square_sums])
  show "length [(3, 0, 0), (- 1, 0, 0), (1, 1, 0), (1, - 1, 0) :: vec]
      = length [(2, 0, 0), (- 2, 0, 0), (0, 1, 0), (0, - 1, 0) :: vec]"
    by simp
  show "length (weight_vector [(3, 0, 0), (- 1, 0, 0), (1, 1, 0), (1, - 1, 0)] None)
      = length [(3, 0, 0), (- 1, 0, 0), (1, 1, 0), (1, - 1, 0) :: vec]"
    by (simp add: weight_vector_def)
  show "\<forall>x \<in> set (weight_vector [(3, 0, 0), (- 1, 0, 0), (1, 1, 0), (1, - 1, 0)] None). 0 \<le> x"
    by (simp add: weight_vector_def)
  show "0 < sum_list (weight_vector [(3, 0, 0), (- 1, 0, 0), (1, 1, 0), (1, - 1, 0)] None)"
    by (simp add: weight_vector_def)
  show "is_svd (ws_C \<lparr> ws_C = ((2, 0, 0), (0, 1 / 2, 0), (0, 0, 0)), ws_CMP = (1, 0, 0),
             ws_CMQ = (0, 0, 0), ws_PSQ = 5 / 2, ws_QSQ = 5 / 2, ws_iw = 1 \<rparr>)
          ((\<lambda>C. (eye, (2, 1 / 2, 0), eye))
             (ws_C \<lparr> ws_C = ((2, 0, 0), (0, 1 / 2, 0), (0, 0, 0)), ws_CMP = (1, 0, 0),
             ws_CMQ = (0, 0, 0), ws_PSQ = 5 / 2, ws_QSQ = 5 / 2, ws_iw = 1 \<rparr>))"
    using translated_square_svd by simp
qed

section \<open>Properties of the correspondence solvers\<close>
















declare mset_upt [simp del]






























lemma vdot_self_zero: "vdot c c = 0 \<longleftrightarrow> c = vzero"
proof -
  obtain x y z where c: "c = (x, y, z)" by (rule vec_cases)
  have "x * x + y * y + z * z = 0 \<longleftrightarrow> x = 0 \<and> y = 0 \<and> z = 0"
  proof
    assume e: "x * x + y * y + z * z = 0"
    have "0 \<le> x * x" "0 \<le> y * y" "0 \<le> z * z" by simp_all
    with e have "x * x = 0" "y * y = 0" "z * z = 0" by linarith+
    then show "x = 0 \<and> y = 0 \<and> z = 0" by simp
  qed simp
  then show ?thesis
    unfolding c by (simp add: vdot_def vzero_def)
qed

lemma rodrigues_divisor_zero: "rodrigues_divisor v1 v2 = 0 \<longleftrightarrow> cross v1 v2 = vzero"
proof -
  have "rodrigues_divisor v1 v2 = vdot (cross v1 v2) (cross v1 v2)"
    by (simp add: rodrigues_divisor_def norm3_def Let_def vdot_nonneg)
  then show ?thesis
    by (simp add: vdot_self_zero)
qed

lemma rotation_matrix_vectors_Inr:
  assumes "v1 = v2 \<or> v1 = vneg v2 \<or> cross v1 v2 \<noteq> vzero"
  shows "\<exists>U. rotation_matrix_vectors v1 v2 = Inr U"
proof (cases "rotation_matrix_vectors v1 v2")
  case (Inl e)
  then have "v1 \<noteq> v2" "v1 \<noteq> vneg v2" "rodrigues_divisor v1 v2 = 0"
    by (simp_all add: rotation_matrix_vectors_def Let_def split: if_splits)
  with assms show ?thesis
    by (simp add: rodrigues_divisor_zero)
next
  case (Inr U)
  then show ?thesis ..
qed

lemma lagrange_identity:
  "vdot a b * vdot a b = vdot a a * vdot b b - vdot (cross a b) (cross a b)"
  by (rule vec_cases [of a], rule vec_cases [of b]) (simp add: vdot_def algebra_simps)

lemma vsub_zero: "vsub a b = vzero \<Longrightarrow> a = b"
  by (rule vec_cases [of a], rule vec_cases [of b]) (simp add: vzero_def)

lemma vsub_vneg: "vsub a (vneg b) = vadd a b"
  by (rule vec_cases [of a], rule vec_cases [of b]) simp

lemma vdot_vneg_right: "vdot a (vneg b) = - vdot a b"
  by (rule vec_cases [of a], rule vec_cases [of b]) (simp add: vdot_def)

lemma vdot_vneg_left: "vdot (vneg a) b = - vdot a b"
  by (rule vec_cases [of a], rule vec_cases [of b]) (simp add: vdot_def)

lemma vdot_vneg_vneg: "vdot (vneg a) (vneg a) = vdot a a"
  by (rule vec_cases [of a]) (simp add: vdot_def)




lemma unit_collinear:
  assumes a: "vdot a a = 1" and b: "vdot b b = 1" and c: "cross a b = vzero"
  shows "a = b \<or> a = vneg b"
proof -
  have "vdot a b * vdot a b = 1"
    using lagrange_identity [of a b] a b c by (simp add: vdot_vzero_right)
  then have "(vdot a b - 1) * (vdot a b + 1) = 0"
    by (simp add: algebra_simps)
  then have "vdot a b = 1 \<or> vdot a b = - 1"
    by auto
  then show ?thesis
  proof
    assume "vdot a b = 1"
    with a b have "vdot (vsub a b) (vsub a b) = 0"
      by (simp add: sq_norm_vsub)
    then have "a = b"
      by (simp add: vdot_self_zero vsub_zero)
    then show ?thesis ..
  next
    assume "vdot a b = - 1"
    with a b have "vdot (vsub a (vneg b)) (vsub a (vneg b)) = 0"
      by (simp add: sq_norm_vsub vdot_vneg_left vdot_vneg_right)
    then have "a = vneg b"
      by (simp add: vdot_self_zero vsub_zero)
    then show ?thesis ..
  qed
qed

lemma rotation_between_units:
  assumes "vdot a a = 1" and "vdot b b = 1"
  shows "\<exists>U. rotation_matrix_vectors a b = Inr U"
  using unit_collinear [OF assms] by (intro rotation_matrix_vectors_Inr) blast

















end
